theory Spec2Isabelle
  imports Main "HOL-Library.Word" "HOL-Library.AList"
begin

section \<open>JavaScript values\<close>

text \<open>
  A JavaScript string is a sequence of UTF-16 code units. \<open>js\<close> turns a literal
  of this theory into such a sequence.
\<close>

type_synonym jsstring = "16 word list"

definition js :: "string \<Rightarrow> jsstring" where
  "js s = map (\<lambda>c. of_nat (of_char c)) s"

text \<open>
  A \<^verbatim>\<open>Record<string, T>\<close> is modelled by the list of its own entries in the order
  \<^verbatim>\<open>Object.keys\<close>, \<^verbatim>\<open>Object.values\<close> and \<^verbatim>\<open>Object.entries\<close> enumerate them.
\<close>

type_synonym 'v jsrecord = "(jsstring \<times> 'v) list"

definition Object_keys :: "'v jsrecord \<Rightarrow> jsstring list" where
  "Object_keys r = map fst r"

definition Object_values :: "'v jsrecord \<Rightarrow> 'v list" where
  "Object_values r = map snd r"

definition Object_entries :: "'v jsrecord \<Rightarrow> (jsstring \<times> 'v) list" where
  "Object_entries r = r"

text \<open>
  A thrown value: an instance of \<^verbatim>\<open>Error\<close> with its message, or any other value
  (the handlers below only ask \<^verbatim>\<open>error instanceof Error\<close> and read \<^verbatim>\<open>error.message\<close>).
\<close>

datatype js_error = Error (message: jsstring) | NonError

text \<open>The \<^verbatim>\<open>{ data, error }\<close> pair the Supabase client and the queries built on it return.\<close>

record 'a supabase_result =
  sr_data :: "'a option"
  sr_error :: "js_error option"

section \<open>The registry route: \<^verbatim>\<open>app/api/r/[username]/[component_slug]/route.ts\<close>\<close>

record users_row =
  username :: jsstring

record components_row =
  c_dependencies :: "jsstring jsrecord"
  c_direct_registry_dependencies :: "jsstring list"
  c_registry :: jsstring
  c_user :: users_row

text \<open>One value of the record \<^verbatim>\<open>resolveRegistryDependencyTree\<close> returns: \<^verbatim>\<open>{ code, registry }\<close>.\<close>

record resolved_file =
  code :: jsstring
  registry :: jsstring

record registry_file =
  path :: jsstring
  content :: jsstring
  file_type :: jsstring
  target :: jsstring

text \<open>
  \<^verbatim>\<open>ComponentRegistryResponse\<close>. \<open>dependencies = None\<close> is the value \<^verbatim>\<open>undefined\<close>,
  which \<^verbatim>\<open>NextResponse.json\<close> leaves out of the serialised object.
\<close>

record ComponentRegistryResponse =
  name :: jsstring
  response_type :: jsstring
  dependencies :: "jsstring list option"
  files :: "registry_file list"

datatype response_body = ErrorBody jsstring | ManifestBody ComponentRegistryResponse

record response =
  status :: nat
  body :: response_body

definition NextResponse_json :: "response_body \<Rightarrow> nat \<Rightarrow> response" where
  "NextResponse_json b s = \<lparr>status = s, body = b\<rparr>"

text \<open>
  The two collaborators of the handler are parameters: the query on the \<^verbatim>\<open>components\<close>
  table (by slug and user name) and \<^verbatim>\<open>resolveRegistryDependencyTree\<close> (imported from
  \<^verbatim>\<open>@/utils/queries.server\<close>). Each either rejects (\<open>Inl\<close>, the value thrown by \<^verbatim>\<open>await\<close>)
  or returns its \<^verbatim>\<open>{ data, error }\<close> pair.
\<close>

type_synonym component_query =
  "jsstring \<Rightarrow> jsstring \<Rightarrow> js_error + components_row supabase_result"

type_synonym registry_resolver =
  "jsstring list \<Rightarrow> js_error + resolved_file jsrecord supabase_result"

definition registry_file_of :: "jsstring \<times> resolved_file \<Rightarrow> registry_file" where
  "registry_file_of e =
     (case e of (p, r) \<Rightarrow>
        \<lparr>path = p, content = code r, file_type = js ''registry:'' @ registry r, target = js ''''\<rparr>)"

text \<open>The body of the \<^verbatim>\<open>try\<close> block of \<^verbatim>\<open>GET\<close>; \<open>Inl\<close> is a value thrown inside it.\<close>

definition GET_try ::
  "component_query \<Rightarrow> registry_resolver \<Rightarrow> jsstring \<Rightarrow> jsstring \<Rightarrow> js_error + response" where
  "GET_try select_component resolveRegistryDependencyTree username' component_slug =
     (case select_component component_slug username' of
        Inl thrown \<Rightarrow> Inl thrown
      | Inr q \<Rightarrow>
          (case (sr_error q, sr_data q) of
             (Some e, _) \<Rightarrow> Inr (NextResponse_json (ErrorBody (js ''Component not found'')) 404)
           | (None, None) \<Rightarrow> Inr (NextResponse_json (ErrorBody (js ''Component not found'')) 404)
           | (None, Some component) \<Rightarrow>
               (let dependencies' = c_dependencies component;
                    directRegistryDependencies = c_direct_registry_dependencies component
                in case resolveRegistryDependencyTree
                          ((username (c_user component) @ js ''/'' @ component_slug)
                             # directRegistryDependencies) of
                     Inl thrown \<Rightarrow> Inl thrown
                   | Inr resolvedRegistryDependencies \<Rightarrow>
                       (case sr_error resolvedRegistryDependencies of
                          Some e \<Rightarrow> Inl e
                        | None \<Rightarrow>
                            (case sr_data resolvedRegistryDependencies of
                               None \<Rightarrow>
                                 Inl (Error (js ''Cannot convert undefined or null to object''))
                             | Some resolved \<Rightarrow>
                                 (let files' = map registry_file_of (Object_entries resolved);
                                      responseData =
                                        \<lparr>name = component_slug,
                                         response_type = js ''registry:'' @ c_registry component,
                                         dependencies =
                                           (if length (Object_keys dependencies') > 0
                                            then Some (Object_keys dependencies')
                                            else None),
                                         files = files'\<rparr>
                                  in Inr (NextResponse_json (ManifestBody responseData) 200)))))))"

definition GET ::
  "component_query \<Rightarrow> registry_resolver \<Rightarrow> jsstring \<Rightarrow> jsstring \<Rightarrow> response" where
  "GET select_component resolveRegistryDependencyTree username' component_slug =
     (case GET_try select_component resolveRegistryDependencyTree username' component_slug of
        Inr r \<Rightarrow> r
      | Inl error \<Rightarrow>
          (let message' = (case error of Error m \<Rightarrow> m
                                       | NonError \<Rightarrow> js ''An unexpected error occurred'')
           in NextResponse_json (ErrorBody message') 500))"

section \<open>The component page: \<^verbatim>\<open>ComponentPageLayout\<close>\<close>

text \<open>
  The character class \<^verbatim>\<open>\s\<close> of a JavaScript regular expression: the code units of
  WhiteSpace and LineTerminator (TAB, LF, VT, FF, CR, SP, NBSP, U+1680, U+2000 to U+200A,
  U+2028, U+2029, U+202F, U+205F, U+3000, U+FEFF).
\<close>

definition is_js_whitespace :: "16 word \<Rightarrow> bool" where
  "is_js_whitespace c \<longleftrightarrow>
     c \<in> {0x09, 0x0A, 0x0B, 0x0C, 0x0D, 0x20, 0xA0, 0x1680, 0x2028, 0x2029, 0x202F, 0x205F,
          0x3000, 0xFEFF}
     \<or> (0x2000 \<le> c \<and> c \<le> 0x200A)"

definition use_client_directive :: jsstring where
  "use_client_directive = js ''\"use client\"''"

text \<open>
  The regular expression \<^verbatim>\<open>/^"use client";?\s*/\<close> run on a string: \<open>None\<close> when it does
  not match, otherwise the text after the match. The match starts at index 0 (the
  expression has no \<^verbatim>\<open>m\<close> flag), \<^verbatim>\<open>;?\<close> takes a semicolon when there is one and \<^verbatim>\<open>\s*\<close> the
  longest run of white space; nothing after them can fail, so there is no backtracking.
\<close>

definition use_client_regex :: "jsstring \<Rightarrow> jsstring option" where
  "use_client_regex s =
     (if take (length use_client_directive) s = use_client_directive
      then (let after_directive = drop (length use_client_directive) s;
                after_semicolon =
                  (case after_directive of
                     [] \<Rightarrow> []
                   | c # cs \<Rightarrow> if c = 0x3B then cs else after_directive)
            in Some (dropWhile is_js_whitespace after_semicolon))
      else None)"

definition use_client_regex_test :: "jsstring \<Rightarrow> bool" where
  "use_client_regex_test s \<longleftrightarrow> use_client_regex s \<noteq> None"

text \<open>\<^verbatim>\<open>s.replace(/^"use client";?\s*/, "")\<close>: the first match, if any, is cut out.\<close>

definition use_client_regex_replace :: "jsstring \<Rightarrow> jsstring" where
  "use_client_regex_replace s = (case use_client_regex s of None \<Rightarrow> s | Some rest \<Rightarrow> rest)"

fun join :: "jsstring \<Rightarrow> jsstring list \<Rightarrow> jsstring" where
  "join sep [] = []"
| "join sep [x] = x"
| "join sep (x # y # ys) = x @ sep @ join sep (y # ys)"

definition importStatements :: "jsstring list \<Rightarrow> jsstring \<Rightarrow> jsstring" where
  "importStatements componentNames component_slug =
     js ''import { '' @ join (js '', '') componentNames @ js '' } from \"./'' @ component_slug
       @ js ''\";'' @ [0x0A]"

definition demoCode :: "jsstring list \<Rightarrow> jsstring \<Rightarrow> jsstring \<Rightarrow> jsstring" where
  "demoCode componentNames component_slug rawDemoCode =
     (let hasUseClient = use_client_regex_test rawDemoCode
      in if hasUseClient
         then js ''\"use client\";'' @ [0x0A] @ importStatements componentNames component_slug
                @ [0x0A] @ use_client_regex_replace rawDemoCode
         else importStatements componentNames component_slug @ [0x0A] @ rawDemoCode)"

text \<open>
  A value of the type \<^verbatim>\<open>Json\<close>, which is the type of the column \<^verbatim>\<open>demo_component_names\<close>.
  A number is kept as its literal text.
\<close>

datatype json =
    JNull
  | JBoolean bool
  | JNumber jsstring
  | JString jsstring
  | JArray "json list"
  | JObject "(jsstring \<times> json) list"

text \<open>
  \<^verbatim>\<open>(component.demo_component_names as string[])[0]!\<close>. The cast and the non-null assertion
  check nothing at run time, so this is the property \<^verbatim>\<open>0\<close> of whatever the column holds:
  the first element of an array, the first code unit of a string, the entry \<^verbatim>\<open>"0"\<close> of an
  object; \<open>None\<close> is \<^verbatim>\<open>undefined\<close>, and reading a property of \<^verbatim>\<open>null\<close> throws.
\<close>

definition demoComponentName :: "json \<Rightarrow> js_error + json option" where
  "demoComponentName demo_component_names =
     (case demo_component_names of
        JNull \<Rightarrow> Inl (Error (js ''Cannot read properties of null (reading '' @ [0x27] @ js ''0''
                              @ [0x27] @ js '')''))
      | JBoolean _ \<Rightarrow> Inr None
      | JNumber _ \<Rightarrow> Inr None
      | JString s \<Rightarrow> (case s of [] \<Rightarrow> Inr None | c # _ \<Rightarrow> Inr (Some (JString [c])))
      | JArray xs \<Rightarrow> (case xs of [] \<Rightarrow> Inr None | x # _ \<Rightarrow> Inr (Some x))
      | JObject members \<Rightarrow> Inr (map_of members (js ''0'')))"

section \<open>The submission form: \<^verbatim>\<open>ComponentForm.tsx\<close>\<close>

subsection \<open>State\<close>

text \<open>
  The functions of \<^verbatim>\<open>utils/parsers\<close> and \<^verbatim>\<open>./utils\<close> that the form calls are parameters.
  \<open>Inl\<close> is an exception thrown by the call.
\<close>

record preview_props =
  pp_files :: "jsstring jsrecord"
  pp_dependencies :: "jsstring jsrecord"

record parsers =
  extractComponentNames :: "jsstring \<Rightarrow> js_error + jsstring list"
  extractDependencies :: "jsstring \<Rightarrow> js_error + jsstring jsrecord"
  extractDemoComponentName :: "jsstring \<Rightarrow> js_error + jsstring"
  findInternalDependencies :: "jsstring \<Rightarrow> jsstring \<Rightarrow> js_error + jsstring jsrecord"
  removeComponentImports :: "jsstring \<Rightarrow> jsstring list \<Rightarrow> js_error + jsstring \<times> jsstring list"
  prepareFilesForPreview :: "jsstring \<Rightarrow> jsstring \<Rightarrow> bool \<Rightarrow> js_error + preview_props"

text \<open>
  The state \<^verbatim>\<open>componentDependencies\<close>, with the names the component destructures it to.
\<close>

record componentDependencies =
  parsedDependencies :: "jsstring jsrecord"
  parsedDemoDependencies :: "jsstring jsrecord"
  internalDependencies :: "jsstring jsrecord"
  parsedComponentNames :: "jsstring list"
  parsedDemoComponentName :: jsstring


record tag =
  tag_id :: "nat option"
  tag_name :: jsstring
  tag_slug :: "jsstring option"

text \<open>
  A \<^verbatim>\<open>File\<close>: its name, its MIME type and
  \<^verbatim>\<open>Buffer.from(await file.arrayBuffer()).toString("base64")\<close>.
\<close>

record file_blob =
  file_name :: jsstring
  file_mime :: jsstring
  file_base64 :: jsstring

text \<open>The values of the form (\<^verbatim>\<open>FormData\<close>).\<close>

record form_values =
  f_name :: jsstring
  f_component_slug :: jsstring
  f_code :: jsstring
  f_demo_code :: jsstring
  f_description :: jsstring
  f_tags :: "tag list"
  f_license :: jsstring
  f_preview_url :: "file_blob option"

record form_state =
  form :: form_values
  deps :: componentDependencies
  showComponentDetails :: bool
  importsToRemove :: "jsstring list option"
  previewProps :: "preview_props option"

subsection \<open>The analysis effect and the slug inputs\<close>

text \<open>
  \<^verbatim>\<open>updateDependencies\<close>: the five calls in the order of the source; an exception of any of
  them is caught and logged, and the state is not set.
\<close>

definition updateDependencies ::
  "parsers \<Rightarrow> jsstring \<Rightarrow> jsstring \<Rightarrow> componentDependencies \<Rightarrow> componentDependencies" where
  "updateDependencies p code' demoCode' prev =
     (case extractComponentNames p code' of
        Inl error \<Rightarrow> prev
      | Inr componentNames \<Rightarrow>
     (case extractDependencies p code' of
        Inl error \<Rightarrow> prev
      | Inr dependencies' \<Rightarrow>
     (case extractDependencies p demoCode' of
        Inl error \<Rightarrow> prev
      | Inr demoDependencies \<Rightarrow>
     (case extractDemoComponentName p demoCode' of
        Inl error \<Rightarrow> prev
      | Inr demoComponentName' \<Rightarrow>
     (case findInternalDependencies p code' demoCode' of
        Inl error \<Rightarrow> prev
      | Inr internalDependencies' \<Rightarrow>
          \<lparr>parsedDependencies = dependencies',
           parsedDemoDependencies = demoDependencies,
           internalDependencies = internalDependencies',
           parsedComponentNames = componentNames,
           parsedDemoComponentName = demoComponentName'\<rparr>)))))"

text \<open>
  The hook \<^verbatim>\<open>useEffect(() => { ... updateDependencies() }, [code, demoCode])\<close>: React runs
  the effect after the first render (\<open>rendered_before = None\<close>) and after a render in which \<^verbatim>\<open>code\<close> or
  \<^verbatim>\<open>demoCode\<close> differs from its value at the render before.
\<close>

definition updateDependencies_effect ::
  "parsers \<Rightarrow> (jsstring \<times> jsstring) option \<Rightarrow> jsstring \<Rightarrow> jsstring
     \<Rightarrow> componentDependencies \<Rightarrow> componentDependencies" where
  "updateDependencies_effect p rendered_before code' demoCode' prev =
     (if rendered_before = Some (code', demoCode') then prev
      else updateDependencies p code' demoCode' prev)"

text \<open>
  The \<^verbatim>\<open>onChange\<close> handler of the input that \<^verbatim>\<open>InputInternalDependenciesCard\<close> renders for
  \<open>path\<close>: \<^verbatim>\<open>{ ...prev, internalDependencies: { ...prev?.internalDependencies, [path]: value } }\<close>.
\<close>

definition InputInternalDependenciesCard_onChange ::
  "jsstring \<Rightarrow> jsstring \<Rightarrow> componentDependencies \<Rightarrow> componentDependencies" where
  "InputInternalDependenciesCard_onChange path' value' prev =
     prev\<lparr>internalDependencies := AList.update path' value' (internalDependencies prev)\<rparr>"

subsection \<open>The self-import effect and the preview effect\<close>


text \<open>The effect that sets \<^verbatim>\<open>previewProps\<close>, and \<^verbatim>\<open>isPreviewReady\<close>.\<close>

definition previewProps_effect :: "parsers \<Rightarrow> bool \<Rightarrow> form_state \<Rightarrow> js_error + form_state" where
  "previewProps_effect p isDarkTheme st =
     (let code' = f_code (form st); demoCode' = f_demo_code (form st)
      in if code' \<noteq> [] \<and> demoCode' \<noteq> []
            \<and> length (Object_keys (internalDependencies (deps st))) = 0
            \<and> (case importsToRemove st of None \<Rightarrow> False | Some r \<Rightarrow> length r = 0)
         then (case prepareFilesForPreview p code' demoCode' isDarkTheme of
                 Inl error \<Rightarrow> Inl error
               | Inr props \<Rightarrow> Inr (st\<lparr>previewProps := Some props\<rparr>))
         else Inr (st\<lparr>previewProps := None\<rparr>))"

definition isPreviewReady :: "form_state \<Rightarrow> bool" where
  "isPreviewReady st \<longleftrightarrow>
     previewProps st \<noteq> None
     \<and> length (Object_keys (internalDependencies (deps st))) = 0
     \<and> importsToRemove st \<noteq> None
     \<and> length (f_code (form st)) \<noteq> 0
     \<and> length (f_demo_code (form st)) \<noteq> 0"

subsection \<open>The rewrite effects\<close>

text \<open>
  The effect that calls \<^verbatim>\<open>wrapExportInBraces\<close> (imported from \<^verbatim>\<open>utils/parsers\<close>, here the
  parameter \<open>wrap\<close>), with the state \<^verbatim>\<open>exportWrapped\<close> that guards it: once the flag is set
  the effect returns at once.
\<close>

definition wrapExportInBraces_effect ::
  "(jsstring \<Rightarrow> js_error + jsstring) \<Rightarrow> bool \<times> form_state \<Rightarrow> js_error + bool \<times> form_state" where
  "wrapExportInBraces_effect wrap s =
     (case s of (exportWrapped, st) \<Rightarrow>
        if exportWrapped then Inr (exportWrapped, st)
        else (let code' = f_code (form st)
              in if code' = [] then Inr (exportWrapped, st)
                 else (case wrap code' of
                         Inl error \<Rightarrow> Inl error
                       | Inr modifiedCode \<Rightarrow>
                           if modifiedCode \<noteq> code'
                           then Inr (True, st\<lparr>form := (form st)\<lparr>f_code := modifiedCode\<rparr>\<rparr>)
                           else Inr (True, st))))"

text \<open>
  The effect that calls \<^verbatim>\<open>removeAsyncFromExport\<close> (imported from \<^verbatim>\<open>utils/parsers\<close>, here the
  parameter \<open>strip\<close>); it has no guard and runs whenever the demo code changes.
\<close>

definition removeAsyncFromExport_effect ::
  "(jsstring \<Rightarrow> js_error + jsstring) \<Rightarrow> form_state \<Rightarrow> js_error + form_state" where
  "removeAsyncFromExport_effect strip st =
     (let demoCode' = f_demo_code (form st)
      in if demoCode' = [] then Inr st
         else (case strip demoCode' of
                 Inl error \<Rightarrow> Inl error
               | Inr modifiedDemoCode \<Rightarrow>
                   if modifiedDemoCode \<noteq> demoCode'
                   then Inr (st\<lparr>form := (form st)\<lparr>f_demo_code := modifiedDemoCode\<rparr>\<rparr>)
                   else Inr st))"

subsection \<open>Submission\<close>

record user =
  u_id :: jsstring

datatype upload_content = TextContent jsstring | EncodedContent jsstring

text \<open>The argument of \<^verbatim>\<open>uploadToR2\<close>.\<close>

record upload_request =
  up_name :: jsstring
  up_type :: jsstring
  up_content :: upload_content
  up_fileKey :: jsstring
  up_bucketName :: jsstring
  up_contentType :: "jsstring option"

text \<open>
  The row \<^verbatim>\<open>componentData\<close> handed to \<^verbatim>\<open>insert\<close>. The fields the source passes through
  \<^verbatim>\<open>JSON.stringify\<close> hold the value that is serialised.
\<close>

record componentData =
  cd_name :: jsstring
  cd_component_names :: "jsstring list"
  cd_demo_component_names :: jsstring
  cd_component_slug :: jsstring
  cd_code :: jsstring
  cd_demo_code :: jsstring
  cd_description :: jsstring
  cd_user_id :: jsstring
  cd_dependencies :: "jsstring jsrecord"
  cd_demo_dependencies :: "jsstring jsrecord"
  cd_internal_dependencies :: "jsstring jsrecord"
  cd_preview_url :: jsstring

record inserted_component =
  ic_id :: nat

text \<open>
  What the handler does to the world, in order: the calls that reach the storage bucket
  and the database, the alerts, and the state it sets.
\<close>

datatype effect =
    ConsoleError jsstring
  | Alert jsstring
  | SetIsLoading bool
  | UploadToR2 upload_request
  | InsertComponent componentData
  | AddTagsToComponent nat "tag list"
  | SetIsSuccessDialogOpen bool

text \<open>The storage bucket and the database, as the handler sees them.\<close>

record backend =
  uploadToR2 :: "upload_request \<Rightarrow> js_error + jsstring"
  insert_component :: "componentData \<Rightarrow> js_error + inserted_component supabase_result"
  addTagsToComponent :: "nat \<Rightarrow> tag list \<Rightarrow> js_error + unit"

text \<open>\<^verbatim>\<open>name.split(".").pop()\<close>: the text after the last full stop, or the whole name.\<close>

definition split_pop :: "jsstring \<Rightarrow> jsstring" where
  "split_pop s = rev (takeWhile (\<lambda>c. c \<noteq> 0x2E) (rev s))"

definition is_truthy_slug :: "jsstring option \<Rightarrow> bool" where
  "is_truthy_slug s \<longleftrightarrow> (case s of None \<Rightarrow> False | Some t \<Rightarrow> t \<noteq> [])"

text \<open>
  The \<^verbatim>\<open>try\<close> block of \<^verbatim>\<open>onSubmit\<close>: the effects it performs and, when it throws, the
  value thrown. \<open>rendered\<close> holds the form values the component read when it rendered
  (\<^verbatim>\<open>demoCode\<close>, \<^verbatim>\<open>componentSlug\<close>, \<^verbatim>\<open>validTags\<close>), \<open>data\<close> the values passed to the handler.
  Both uploads of \<^verbatim>\<open>Promise.all\<close> are started before either is awaited. \<^verbatim>\<open>validTags\<close> is
  an array, so the guard \<^verbatim>\<open>if (validTags)\<close> always passes.
\<close>

definition onSubmit_try ::
  "backend \<Rightarrow> user \<Rightarrow> componentDependencies \<Rightarrow> form_values \<Rightarrow> form_values
     \<Rightarrow> effect list \<times> js_error option" where
  "onSubmit_try b u st rendered data =
     (let componentNames = parsedComponentNames st;
          demoComponentName' = parsedDemoComponentName st;
          dependencies' = parsedDependencies st;
          cleanedDemoCode = f_demo_code rendered;
          codeFileName = f_component_slug data @ js ''.tsx'';
          demoCodeFileName = f_component_slug data @ js ''.demo.tsx'';
          codeUpload =
            \<lparr>up_name = codeFileName, up_type = js ''text/plain'',
             up_content = TextContent (f_code data),
             up_fileKey = u_id u @ js ''/'' @ codeFileName,
             up_bucketName = js ''components-code'', up_contentType = None\<rparr>;
          demoUpload =
            \<lparr>up_name = demoCodeFileName, up_type = js ''text/plain'',
             up_content = TextContent cleanedDemoCode,
             up_fileKey = u_id u @ js ''/'' @ demoCodeFileName,
             up_bucketName = js ''components-code'', up_contentType = None\<rparr>;
          uploads = [UploadToR2 codeUpload, UploadToR2 demoUpload]
      in case uploadToR2 b codeUpload of
           Inl error \<Rightarrow> (uploads, Some error)
         | Inr codeUrl \<Rightarrow>
      (case uploadToR2 b demoUpload of
           Inl error \<Rightarrow> (uploads, Some error)
         | Inr demoCodeUrl \<Rightarrow>
      (let previewUpload =
             (case f_preview_url data of
                None \<Rightarrow> None
              | Some file \<Rightarrow>
                  (let fileExtension = split_pop (file_name file);
                       fileKey = u_id u @ js ''/'' @ f_component_slug rendered @ js ''.''
                                   @ fileExtension
                   in Some \<lparr>up_name = fileKey, up_type = file_mime file,
                            up_content = EncodedContent (file_base64 file),
                            up_fileKey = fileKey, up_bucketName = js ''components-code'',
                            up_contentType = Some (file_mime file)\<rparr>));
           previewEffects = (case previewUpload of None \<Rightarrow> [] | Some r \<Rightarrow> [UploadToR2 r])
       in case (case previewUpload of None \<Rightarrow> Inr [] | Some r \<Rightarrow> uploadToR2 b r) of
            Inl error \<Rightarrow> (uploads @ previewEffects, Some error)
          | Inr previewImageUrl \<Rightarrow>
      (let componentData' =
             \<lparr>cd_name = f_name data,
              cd_component_names = componentNames,
              cd_demo_component_names = demoComponentName',
              cd_component_slug = f_component_slug data,
              cd_code = codeUrl,
              cd_demo_code = demoCodeUrl,
              cd_description = f_description data,
              cd_user_id = u_id u,
              cd_dependencies = dependencies',
              cd_demo_dependencies = parsedDemoDependencies st,
              cd_internal_dependencies = internalDependencies st,
              cd_preview_url = previewImageUrl\<rparr>;
           effects = uploads @ previewEffects @ [InsertComponent componentData']
       in case insert_component b componentData' of
            Inl error \<Rightarrow> (effects, Some error)
          | Inr r \<Rightarrow>
      (case sr_error r of
         Some error \<Rightarrow> (effects, Some error)
       | None \<Rightarrow>
      (case sr_data r of
         None \<Rightarrow>
           (effects,
            Some (Error (js ''Cannot read properties of null (reading '' @ [0x27] @ js ''id''
                           @ [0x27] @ js '')'')))
       | Some insertedComponent \<Rightarrow>
      (let tags = filter (\<lambda>t. is_truthy_slug (tag_slug t)) (f_tags rendered);
           effects' = effects @ [AddTagsToComponent (ic_id insertedComponent) tags]
       in case addTagsToComponent b (ic_id insertedComponent) tags of
            Inl error \<Rightarrow> (effects', Some error)
          | Inr _ \<Rightarrow> (effects' @ [SetIsSuccessDialogOpen True], None))))))))"

text \<open>
  \<^verbatim>\<open>onSubmit\<close>: the two guards, then the \<^verbatim>\<open>try\<close> block with its \<^verbatim>\<open>catch\<close> and \<^verbatim>\<open>finally\<close>.
  \<open>None\<close> is a user who is not signed in.
\<close>

definition onSubmit ::
  "backend \<Rightarrow> user option \<Rightarrow> componentDependencies \<Rightarrow> form_values \<Rightarrow> form_values
     \<Rightarrow> effect list" where
  "onSubmit b user' st rendered data =
     (case (case user' of None \<Rightarrow> None | Some u \<Rightarrow> if u_id u = [] then None else Some u) of
        None \<Rightarrow>
          [ConsoleError (js ''User is not authenticated''),
           Alert (js ''You must be logged in to add a component.'')]
      | Some u \<Rightarrow>
          if list_ex (\<lambda>slug. slug = []) (Object_values (internalDependencies st))
          then [ConsoleError (js ''Internal dependencies not specified''),
                Alert (js ''Please specify the slug for all internal dependencies'')]
          else (case onSubmit_try b u st rendered data of
                  (effects, None) \<Rightarrow> SetIsLoading True # effects @ [SetIsLoading False]
                | (effects, Some error) \<Rightarrow>
                    (let errorMessage =
                           js ''An error occurred while adding the component''
                             @ (case error of Error m \<Rightarrow> js '': '' @ m | NonError \<Rightarrow> [])
                     in SetIsLoading True # effects
                          @ [ConsoleError (js ''Error adding component:''), Alert errorMessage,
                             SetIsLoading False])))"




definition creates_component_record :: "effect list \<Rightarrow> bool" where
  "creates_component_record effects \<longleftrightarrow>
     list_ex (\<lambda>e. case e of InsertComponent _ \<Rightarrow> True | _ \<Rightarrow> False) effects"

section \<open>The Registry Dependency Resolver\<close>

text \<open>
  Modelled from the spec: \<^verbatim>\<open>resolveRegistryDependencyTree\<close> is imported by the route from
  \<^verbatim>\<open>@/utils/queries.server\<close>, which is not among the source files. The definitions of
  this section follow section 4.3 of the specification (Registry Dependency Resolver),
  its data model (section 3) and the backing-store interface of section 6.
\<close>

text \<open>
  Modelled from the spec: a \<^verbatim>\<open>RegistryEntry\<close>, with the attributes the resolver reads: its
  registry namespace, the pointer to its code \<^verbatim>\<open>SourceUnit\<close>, and \<^verbatim>\<open>internal_dependencies\<close>
  (local import path to the identifier of another entry).
\<close>

record RegistryEntry =
  registry_namespace :: jsstring
  code_source_unit :: jsstring
  internal_dependencies :: "jsstring jsrecord"

text \<open>
  Modelled from the spec: the backing store, finite, keyed by the canonical identifier
  \<^verbatim>\<open>owner/slug\<close>. \<^verbatim>\<open>fetchEntry\<close> and \<^verbatim>\<open>fetchSourceText\<close> are simple reads; \<open>None\<close> is \<^verbatim>\<open>NotFound\<close>.
\<close>

record backing_store =
  entries :: "RegistryEntry jsrecord"
  source_units :: "jsstring jsrecord"

text \<open>Modelled from the spec: \<^verbatim>\<open>fetchEntry(owner, slug) -> RegistryEntry | NotFound\<close>.\<close>

definition fetchEntry :: "backing_store \<Rightarrow> jsstring \<Rightarrow> RegistryEntry option" where
  "fetchEntry store identifier = map_of (entries store) identifier"

text \<open>Modelled from the spec: \<^verbatim>\<open>fetchSourceText(sourceUnitRef) -> string | NotFound\<close>.\<close>

definition fetchSourceText :: "backing_store \<Rightarrow> jsstring \<Rightarrow> jsstring option" where
  "fetchSourceText store sourceUnitRef = map_of (source_units store) sourceUnitRef"

text \<open>
  Modelled from the spec: "fetch the RegistryEntry and its code SourceUnit text from the
  backing store"; an entry or a text that is not found makes the identifier unfetchable.
\<close>

definition fetch :: "backing_store \<Rightarrow> jsstring \<Rightarrow> (RegistryEntry \<times> jsstring) option" where
  "fetch store identifier =
     (case fetchEntry store identifier of
        None \<Rightarrow> None
      | Some entry \<Rightarrow>
          (case fetchSourceText store (code_source_unit entry) of
             None \<Rightarrow> None
           | Some text \<Rightarrow> Some (entry, text)))"

text \<open>Modelled from the spec: a value of the \<^verbatim>\<open>ResolvedSet\<close>, \<^verbatim>\<open>{sourceText, registryNamespace}\<close>.\<close>

record resolved_entry =
  sourceText :: jsstring
  registryNamespace :: jsstring

text \<open>Modelled from the spec: the error \<^verbatim>\<open>DependencyNotFound(identifier)\<close>.\<close>

datatype resolver_error = DependencyNotFound jsstring

text \<open>
  Modelled from the spec: the traversal is "breadth-first (or depth-first)"; the two differ
  in the end of the worklist at which newly found identifiers are put.
\<close>

datatype traversal = BreadthFirst | DepthFirst

text \<open>Modelled from the spec: "enqueue every slug value", at the end the traversal asks for.\<close>

definition enqueue :: "traversal \<Rightarrow> jsstring list \<Rightarrow> jsstring list \<Rightarrow> jsstring list" where
  "enqueue t worklist found =
     (case t of BreadthFirst \<Rightarrow> worklist @ found | DepthFirst \<Rightarrow> found @ worklist)"

text \<open>
  Modelled from the spec: the worklist loop over the visited set. "For each unvisited
  identifier: fetch the RegistryEntry and its code SourceUnit text from the backing store;
  record it in the result keyed by its own identifier; enqueue every slug value present
  in its internal_dependencies map that is not already visited." A fetch that fails
  "aborts the whole resolution with a DependencyNotFound(identifier) error".
  \<open>visited\<close> lists the identifiers fetched so far, in the order of the fetches; the loop
  returns it with the outcome.
\<close>

function resolve_loop ::
  "traversal \<Rightarrow> backing_store \<Rightarrow> jsstring list \<Rightarrow> jsstring list \<Rightarrow> resolved_entry jsrecord
     \<Rightarrow> jsstring list \<times> (resolver_error + resolved_entry jsrecord)" where
  "resolve_loop t store [] visited result = (visited, Inr result)"
| "resolve_loop t store (identifier # worklist) visited result =
     (if identifier \<in> set visited then resolve_loop t store worklist visited result
      else (case fetch store identifier of
              None \<Rightarrow> (visited @ [identifier], Inl (DependencyNotFound identifier))
            | Some (entry, text) \<Rightarrow>
                resolve_loop t store
                  (enqueue t worklist
                     (filter (\<lambda>slug. slug \<notin> set (visited @ [identifier]))
                        (Object_values (internal_dependencies entry))))
                  (visited @ [identifier])
                  (result @ [(identifier,
                              \<lparr>sourceText = text,
                               registryNamespace = registry_namespace entry\<rparr>)])))"
  by pat_completeness auto

termination resolve_loop
proof (relation "inv_image (finite_psubset <*lex*> less_than)
           (\<lambda>(t, store, worklist, visited, result).
               (fst ` set (entries store) - set visited, length worklist))", goal_cases)
  case 1
  show ?case by (intro wf_inv_image wf_lex_prod wf_finite_psubset wf_less_than)
next
  case 2
  then show ?case by simp
next
  case (3 t store i worklist visited result x2 entry src)
  then have "i \<in> fst ` set (entries store)"
    by (auto simp: fetch_def fetchEntry_def split: option.splits dest: map_of_SomeD
        intro: rev_image_eqI)
  with 3 have "fst ` set (entries store) - set (visited @ [i])
                  \<subset> fst ` set (entries store) - set visited"
    by auto
  then show ?case by (simp add: finite_psubset_def)
qed

text \<open>
  Modelled from the spec: the resolver. "Input is an ordered sequence of seed identifiers;
  output is the ResolvedSet covering the seeds and their full transitive
  internal-dependency closure, or an error." The first component of the result is the
  list of the identifiers it fetched, in order.
\<close>

definition resolveRegistryDependencyTree ::
  "traversal \<Rightarrow> backing_store \<Rightarrow> jsstring list
     \<Rightarrow> jsstring list \<times> (resolver_error + resolved_entry jsrecord)" where
  "resolveRegistryDependencyTree t store sourceDependencySlugs =
     resolve_loop t store sourceDependencySlugs [] []"

text \<open>
  Modelled from the spec: the identifiers "reachable from the seeds by following
  internal_dependencies" (section 8), the closure the resolver is to compute: a seed,
  or a value of the \<^verbatim>\<open>internal_dependencies\<close> map of a reachable entry that can be fetched.
\<close>

inductive_set reachable :: "backing_store \<Rightarrow> jsstring list \<Rightarrow> jsstring set"
  for store :: backing_store and seeds :: "jsstring list" where
  seed: "i \<in> set seeds \<Longrightarrow> i \<in> reachable store seeds"
| dependency:
    "i \<in> reachable store seeds \<Longrightarrow> fetch store i = Some (entry, src)
       \<Longrightarrow> d \<in> set (Object_values (internal_dependencies entry))
       \<Longrightarrow> d \<in> reachable store seeds"

text \<open>
  Modelled from the spec: the resolver as the route calls it. "Resolver errors propagate
  up to the serving boundary": the outcome is handed over as the pair \<^verbatim>\<open>{ data, error }\<close>
  the route reads, the ResolvedSet as a record from identifier to \<^verbatim>\<open>{ code, registry }\<close>, in
  the order of the fetches. The value that stands for a \<^verbatim>\<open>DependencyNotFound\<close> in the field
  \<^verbatim>\<open>error\<close> is given by the parameter \<open>describe\<close>.
\<close>

definition registry_resolver_of ::
  "(resolver_error \<Rightarrow> js_error) \<Rightarrow> traversal \<Rightarrow> backing_store \<Rightarrow> registry_resolver" where
  "registry_resolver_of describe t store sourceDependencySlugs =
     (case snd (resolveRegistryDependencyTree t store sourceDependencySlugs) of
        Inl e \<Rightarrow> Inr \<lparr>sr_data = None, sr_error = Some (describe e)\<rparr>
      | Inr resolved \<Rightarrow>
          Inr \<lparr>sr_data =
                 Some (map (\<lambda>(identifier, r).
                              (identifier,
                               \<lparr>code = sourceText r, registry = registryNamespace r\<rparr>))
                         resolved),
               sr_error = None\<rparr>)"

section \<open>The Dependency Classifier\<close>

text \<open>
  Modelled from the spec: \<^verbatim>\<open>extractDependencies\<close> and \<^verbatim>\<open>findInternalDependencies\<close> are imported
  by the form from \<^verbatim>\<open>utils/parsers\<close>, which is not among the source files. The definitions
  of this section follow sections 3, 4.1 and 4.2 of the specification. The spec leaves
  the syntax of import statements to the tokenizer; the model starts from the import
  statements of a source text, in their order.
\<close>

text \<open>
  Modelled from the spec: an import statement as the analysis reads it, "the literal
  module path and the set of bound names", with the version string a lockfile or other
  version source gives for it, if there is one.
\<close>

record import_statement =
  module_path :: jsstring
  bound_names :: "jsstring list"
  known_version :: "jsstring option"

text \<open>Modelled from the spec: the kind of an import, "kind in {package, local}".\<close>

datatype import_kind = Package | Local

text \<open>Modelled from the spec: \<^verbatim>\<open>ImportFact\<close>, "(rawPath, kind, importedNames)".\<close>

record ImportFact =
  rawPath :: jsstring
  kind :: import_kind
  importedNames :: "jsstring list"

text \<open>Modelled from the spec: "starts with a relative-path marker".\<close>

definition starts_with :: "jsstring \<Rightarrow> jsstring \<Rightarrow> bool" where
  "starts_with marker p \<longleftrightarrow> take (length marker) p = marker"

text \<open>
  Modelled from the spec: "A path is local if it starts with a relative-path marker
  (./ or ../) or otherwise resolves within the same logical package root; every other
  path is a package import." The configurable resolution table is the parameter
  \<open>within_package_root\<close>: the paths it resolves within the package root.
\<close>

definition path_kind :: "(jsstring \<Rightarrow> bool) \<Rightarrow> jsstring \<Rightarrow> import_kind" where
  "path_kind within_package_root p =
     (if starts_with (js ''./'') p \<or> starts_with (js ''../'') p \<or> within_package_root p
      then Local else Package)"

text \<open>Modelled from the spec: the fact the analysis produces for one import statement.\<close>

definition import_fact :: "(jsstring \<Rightarrow> bool) \<Rightarrow> import_statement \<Rightarrow> ImportFact" where
  "import_fact within_package_root s =
     \<lparr>rawPath = module_path s, kind = path_kind within_package_root (module_path s),
      importedNames = bound_names s\<rparr>"

text \<open>Modelled from the spec: the sentinel \<^verbatim>\<open>"latest"\<close>.\<close>

definition latest_sentinel :: jsstring where
  "latest_sentinel = js ''latest''"

text \<open>
  Modelled from the spec: "record the best-known version string (fall back to a "latest"
  sentinel if no lockfile/version source is available)".
\<close>

definition best_known_version :: "import_statement \<Rightarrow> jsstring" where
  "best_known_version s = (case known_version s of None \<Rightarrow> latest_sentinel | Some v \<Rightarrow> v)"

text \<open>
  Modelled from the spec: "collisions on the same package name across multiple import
  statements must resolve to a single entry, keeping the first non-sentinel version
  seen". The package name is the module path.
\<close>

definition record_package ::
  "jsstring jsrecord \<Rightarrow> jsstring \<Rightarrow> jsstring \<Rightarrow> jsstring jsrecord" where
  "record_package m package_name version =
     (case map_of m package_name of
        None \<Rightarrow> m @ [(package_name, version)]
      | Some seen \<Rightarrow>
          if seen = latest_sentinel \<and> version \<noteq> latest_sentinel
          then AList.update package_name version m
          else m)"

text \<open>
  Modelled from the spec: "For a local import, do NOT attempt to resolve it to a package
  version; instead, emit the raw path as a pending internal-dependency key", the value
  being empty until the user supplies a slug.
\<close>

definition record_local :: "jsstring jsrecord \<Rightarrow> jsstring \<Rightarrow> jsstring jsrecord" where
  "record_local m raw_path =
     (case map_of m raw_path of None \<Rightarrow> m @ [(raw_path, [])] | Some _ \<Rightarrow> m)"

text \<open>
  Modelled from the spec: the external-dependency map of one source text (what the form
  calls \<^verbatim>\<open>extractDependencies\<close> for, once on the component and once on the demo).
\<close>

definition external_dependencies_of ::
  "(jsstring \<Rightarrow> bool) \<Rightarrow> import_statement list \<Rightarrow> jsstring jsrecord" where
  "external_dependencies_of within_package_root statements =
     foldl (\<lambda>m s. if kind (import_fact within_package_root s) = Package
                   then record_package m (rawPath (import_fact within_package_root s))
                          (best_known_version s)
                   else m)
       [] statements"

text \<open>
  Modelled from the spec: the internal-dependency map of the component and its demo (what
  the form calls \<^verbatim>\<open>findInternalDependencies\<close> for).
\<close>

definition internal_dependencies_of ::
  "(jsstring \<Rightarrow> bool) \<Rightarrow> import_statement list \<Rightarrow> import_statement list
     \<Rightarrow> jsstring jsrecord" where
  "internal_dependencies_of within_package_root statements demo_statements =
     foldl (\<lambda>m s. if kind (import_fact within_package_root s) = Local
                   then record_local m (rawPath (import_fact within_package_root s))
                   else m)
       [] (statements @ demo_statements)"

section \<open>Properties of the registry route\<close>

lemma GET_root_missing:
  assumes "select_component component_slug username' = Inr q"
    and "sr_error q \<noteq> None \<or> sr_data q = None"
  shows "GET select_component resolver username' component_slug
           = \<lparr>status = 404, body = ErrorBody (js ''Component not found'')\<rparr>"
  using assms
  by (auto simp: GET_def GET_try_def NextResponse_json_def split: option.splits)

lemma GET_query_thrown:
  assumes "select_component component_slug username' = Inl e"
  shows "GET select_component resolver username' component_slug
           = \<lparr>status = 500,
              body = ErrorBody (case e of Error m \<Rightarrow> m
                                | NonError \<Rightarrow> js ''An unexpected error occurred'')\<rparr>"
  using assms
  by (simp add: GET_def GET_try_def NextResponse_json_def Let_def)

lemma GET_resolver_error:
  assumes "select_component component_slug username' = Inr q"
    and "sr_error q = None" and "sr_data q = Some component"
    and "resolver ((username (c_user component) @ js ''/'' @ component_slug)
                     # c_direct_registry_dependencies component) = Inr rr"
    and "sr_error rr = Some e"
  shows "GET select_component resolver username' component_slug
           = \<lparr>status = 500,
              body = ErrorBody (case e of Error m \<Rightarrow> m
                                | NonError \<Rightarrow> js ''An unexpected error occurred'')\<rparr>"
  using assms
  by (simp add: GET_def GET_try_def NextResponse_json_def Let_def)

lemma GET_manifest:
  assumes "select_component component_slug username' = Inr q"
    and "sr_error q = None" and "sr_data q = Some component"
    and "resolver ((username (c_user component) @ js ''/'' @ component_slug)
                     # c_direct_registry_dependencies component) = Inr rr"
    and "sr_error rr = None" and "sr_data rr = Some resolved"
  shows "GET select_component resolver username' component_slug
           = \<lparr>status = 200,
              body = ManifestBody
                \<lparr>name = component_slug,
                 response_type = js ''registry:'' @ c_registry component,
                 dependencies = (if c_dependencies component = [] then None
                                 else Some (map fst (c_dependencies component))),
                 files = map (\<lambda>(p, f). \<lparr>path = p, content = code f,
                                          file_type = js ''registry:'' @ registry f,
                                          target = []\<rparr>) resolved\<rparr>\<rparr>"
  using assms
  by (auto simp: GET_def GET_try_def NextResponse_json_def Object_keys_def Object_entries_def
      registry_file_of_def js_def Let_def split: option.splits prod.splits)

text \<open>
  C4. When the root component is found and the resolver returns its record of files, the
  manifest is: the slug as name, \<^verbatim>\<open>registry:\<close> and the root's registry as type, the keys
  (package names, no versions) of the root component's own dependency map as
  \<^verbatim>\<open>dependencies\<close>, left out when that map is empty, and one file per entry of the resolver's
  record, with the entry's key as path, its code as content, \<^verbatim>\<open>registry:\<close> and the entry's
  own registry as type, and the empty string as target. The resolver's record carries
  only code and registry, so nothing of a dependency's own packages reaches the list.
\<close>

theorem GET_manifest_contents:
  assumes "select_component component_slug username' = Inr q"
    and "sr_error q = None" and "sr_data q = Some component"
    and "resolver ((username (c_user component) @ js ''/'' @ component_slug)
                     # c_direct_registry_dependencies component) = Inr rr"
    and "sr_error rr = None" and "sr_data rr = Some resolved"
  shows "GET select_component resolver username' component_slug
           = \<lparr>status = 200,
              body = ManifestBody
                \<lparr>name = component_slug,
                 response_type = js ''registry:'' @ c_registry component,
                 dependencies = (if c_dependencies component = [] then None
                                 else Some (map fst (c_dependencies component))),
                 files = map (\<lambda>(p, f). \<lparr>path = p, content = code f,
                                          file_type = js ''registry:'' @ registry f,
                                          target = []\<rparr>) resolved\<rparr>\<rparr>"
  using GET_manifest[where select_component = select_component
        and component_slug = component_slug and username' = username' and resolver = resolver, OF assms] .

theorem GET_manifest_contents_witness:
  "GET (\<lambda>slug user. Inr \<lparr>sr_data = Some \<lparr>c_dependencies = [(js ''framer-motion'', js ''^11.0.0'')],
                 c_direct_registry_dependencies = [js ''alice/icon''],
                 c_registry = js ''ui'', c_user = \<lparr>username = js ''alice''\<rparr>\<rparr>,
               sr_error = None\<rparr>)
       (\<lambda>seeds. if seeds = [js ''alice/button'', js ''alice/icon'']
                 then Inr \<lparr>sr_data = Some [(js ''alice/button'', \<lparr>code = js ''B'', registry = js ''ui''\<rparr>),
                                           (js ''alice/icon'', \<lparr>code = js ''I'', registry = js ''hook''\<rparr>)],
                          sr_error = None\<rparr>
                 else Inl NonError)
       (js ''alice'') (js ''button'')
     = \<lparr>status = 200,
        body = ManifestBody
          \<lparr>name = js ''button'', response_type = js ''registry:ui'',
           dependencies = Some [js ''framer-motion''],
           files = [\<lparr>path = js ''alice/button'', content = js ''B'',
                     file_type = js ''registry:ui'', target = []\<rparr>,
                    \<lparr>path = js ''alice/icon'', content = js ''I'',
                     file_type = js ''registry:hook'', target = []\<rparr>]\<rparr>\<rparr>"
proof -
  let ?c = "\<lparr>c_dependencies = [(js ''framer-motion'', js ''^11.0.0'')],
             c_direct_registry_dependencies = [js ''alice/icon''],
             c_registry = js ''ui'', c_user = \<lparr>username = js ''alice''\<rparr>\<rparr>"
  let ?q = "\<lparr>sr_data = Some ?c, sr_error = None\<rparr>"
  let ?files = "[(js ''alice/button'', \<lparr>code = js ''B'', registry = js ''ui''\<rparr>),
                 (js ''alice/icon'', \<lparr>code = js ''I'', registry = js ''hook''\<rparr>)]"
  let ?rr = "\<lparr>sr_data = Some ?files, sr_error = None\<rparr>"
  let ?select = "\<lambda>(slug::jsstring) (user::jsstring). (Inr ?q :: js_error + components_row supabase_result)"
  let ?resolver = "\<lambda>seeds. if seeds = [js ''alice/button'', js ''alice/icon'']
                 then Inr ?rr else (Inl NonError :: js_error + resolved_file jsrecord supabase_result)"
  have 1: "?select (js ''button'') (js ''alice'') = Inr ?q" by simp
  have 2: "sr_error ?q = None" and 3: "sr_data ?q = Some ?c" by simp_all
  have 4: "?resolver ((username (c_user ?c) @ js ''/'' @ js ''button'')
                        # c_direct_registry_dependencies ?c) = Inr ?rr"
    by (simp add: js_def)
  have 5: "sr_error ?rr = None" and 6: "sr_data ?rr = Some ?files" by simp_all
  show ?thesis
    using GET_manifest_contents[of ?select "js ''button''" "js ''alice''" ?q ?c ?resolver ?rr ?files,
        OF 1 2 3 4 5 6]
    by (simp add: js_def)
qed

section \<open>Properties of the submission form\<close>

lemma updateDependencies_throws:
  assumes "extractComponentNames p c = Inl e1 \<or> extractDependencies p c = Inl e2
           \<or> extractDependencies p d = Inl e3 \<or> extractDemoComponentName p d = Inl e4
           \<or> findInternalDependencies p c d = Inl e5"
  shows "updateDependencies p c d prev = prev"
  using assms by (auto simp: updateDependencies_def split: sum.splits)

lemma updateDependencies_sets:
  assumes "extractComponentNames p c = Inr names" "extractDependencies p c = Inr ds"
    "extractDependencies p d = Inr dds" "extractDemoComponentName p d = Inr n"
    "findInternalDependencies p c d = Inr ids"
  shows "updateDependencies p c d prev =
           \<lparr>parsedDependencies = ds, parsedDemoDependencies = dds, internalDependencies = ids,
            parsedComponentNames = names, parsedDemoComponentName = n\<rparr>"
  using assms by (simp add: updateDependencies_def)

lemma map_of_onChange:
  "map_of (internalDependencies (InputInternalDependenciesCard_onChange pa v prev))
     = (map_of (internalDependencies prev))(pa \<mapsto> v)"
  by (simp add: InputInternalDependenciesCard_onChange_def update_conv')

lemma onSubmit_not_signed_in:
  assumes "user' = None \<or> (\<exists>u. user' = Some u \<and> u_id u = [])"
  shows "onSubmit b user' st rendered data =
           [ConsoleError (js ''User is not authenticated''),
            Alert (js ''You must be logged in to add a component.'')]"
  using assms by (auto simp: onSubmit_def)

lemma onSubmit_unresolved:
  assumes "user' = Some u" "u_id u \<noteq> []" "[] \<in> snd ` set (internalDependencies st)"
  shows "onSubmit b user' st rendered data =
          [ConsoleError (js ''Internal dependencies not specified''),
           Alert (js ''Please specify the slug for all internal dependencies'')]"
  using assms by (auto simp: onSubmit_def Object_values_def list_ex_iff)

lemma onSubmit_try_uploads:
  "\<exists>r1 r2 rest. fst (onSubmit_try b u st rendered data) = UploadToR2 r1 # UploadToR2 r2 # rest"
  by (auto simp: onSubmit_try_def Let_def split: sum.splits option.splits)

lemma onSubmit_proceeds:
  assumes "user' = Some u" "u_id u \<noteq> []" "[] \<notin> snd ` set (internalDependencies st)"
  shows "\<exists>r1 r2 rest. onSubmit b user' st rendered data
            = SetIsLoading True # UploadToR2 r1 # UploadToR2 r2 # rest"
proof -
  obtain r1 r2 rest where
    "fst (onSubmit_try b u st rendered data) = UploadToR2 r1 # UploadToR2 r2 # rest"
    using onSubmit_try_uploads by blast
  then show ?thesis using assms
    by (cases "onSubmit_try b u st rendered data")
       (auto simp: onSubmit_def Object_values_def list_ex_iff Let_def split: option.splits)
qed

lemma onSubmit_gated:
  assumes "[] \<in> snd ` set (internalDependencies st)"
  shows "\<not> creates_component_record (onSubmit b user' st rendered data)"
    and "UploadToR2 r \<notin> set (onSubmit b user' st rendered data)"
    and "InsertComponent cd \<notin> set (onSubmit b user' st rendered data)"
proof -
  consider "user' = None \<or> (\<exists>u. user' = Some u \<and> u_id u = [])"
    | u where "user' = Some u" "u_id u \<noteq> []"
    by (cases user') auto
  then have "onSubmit b user' st rendered data =
           [ConsoleError (js ''User is not authenticated''),
            Alert (js ''You must be logged in to add a component.'')]
      \<or> onSubmit b user' st rendered data =
          [ConsoleError (js ''Internal dependencies not specified''),
           Alert (js ''Please specify the slug for all internal dependencies'')]"
    using onSubmit_not_signed_in onSubmit_unresolved[OF _ _ assms] by cases blast+
  then show "\<not> creates_component_record (onSubmit b user' st rendered data)"
    and "UploadToR2 r \<notin> set (onSubmit b user' st rendered data)"
    and "InsertComponent cd \<notin> set (onSubmit b user' st rendered data)"
    by (auto simp: creates_component_record_def)
qed

text \<open>
  C7. When some value of the internal-dependency map is the empty string, \<^verbatim>\<open>onSubmit\<close>
  uploads nothing and inserts no component row, and for a signed-in user all it does is
  log "Internal dependencies not specified" and alert "Please specify the slug for all
  internal dependencies" (the form's unresolved-dependency failure). So a submission
  that uploads or inserts anything has no empty value in the map; and for a signed-in
  user and a map without empty values the handler does proceed: it sets the loading
  flag and starts the two source uploads.
\<close>

theorem onSubmit_unresolved_internal_dependency:
  "([] \<in> snd ` set (internalDependencies st) \<longrightarrow>
       (\<forall>u. user' = Some u \<and> u_id u \<noteq> [] \<longrightarrow>
            onSubmit b user' st rendered data
              = [ConsoleError (js ''Internal dependencies not specified''),
                 Alert (js ''Please specify the slug for all internal dependencies'')])
     \<and> \<not> creates_component_record (onSubmit b user' st rendered data)
     \<and> (\<forall>r. UploadToR2 r \<notin> set (onSubmit b user' st rendered data))
     \<and> (\<forall>cd. InsertComponent cd \<notin> set (onSubmit b user' st rendered data)))
   \<and> (creates_component_record (onSubmit b user' st rendered data)
        \<or> (\<exists>r. UploadToR2 r \<in> set (onSubmit b user' st rendered data))
      \<longrightarrow> [] \<notin> snd ` set (internalDependencies st))
   \<and> ((\<exists>u. user' = Some u \<and> u_id u \<noteq> []) \<and> [] \<notin> snd ` set (internalDependencies st)
      \<longrightarrow> (\<exists>r1 r2 rest. onSubmit b user' st rendered data
                            = SetIsLoading True # UploadToR2 r1 # UploadToR2 r2 # rest))"
proof (intro conjI)
  show "[] \<in> snd ` set (internalDependencies st) \<longrightarrow>
       (\<forall>u. user' = Some u \<and> u_id u \<noteq> [] \<longrightarrow>
            onSubmit b user' st rendered data
              = [ConsoleError (js ''Internal dependencies not specified''),
                 Alert (js ''Please specify the slug for all internal dependencies'')])
     \<and> \<not> creates_component_record (onSubmit b user' st rendered data)
     \<and> (\<forall>r. UploadToR2 r \<notin> set (onSubmit b user' st rendered data))
     \<and> (\<forall>cd. InsertComponent cd \<notin> set (onSubmit b user' st rendered data))"
  proof (intro impI conjI allI)
    fix u
    assume "[] \<in> snd ` set (internalDependencies st)" and "user' = Some u \<and> u_id u \<noteq> []"
    then show "onSubmit b user' st rendered data
              = [ConsoleError (js ''Internal dependencies not specified''),
                 Alert (js ''Please specify the slug for all internal dependencies'')]"
      using onSubmit_unresolved[of user' u st b rendered data] by simp
  next
    assume "[] \<in> snd ` set (internalDependencies st)"
    then show "\<not> creates_component_record (onSubmit b user' st rendered data)"
      by (rule onSubmit_gated(1))
  next
    fix r assume "[] \<in> snd ` set (internalDependencies st)"
    then show "UploadToR2 r \<notin> set (onSubmit b user' st rendered data)"
      by (rule onSubmit_gated(2))
  next
    fix cd assume "[] \<in> snd ` set (internalDependencies st)"
    then show "InsertComponent cd \<notin> set (onSubmit b user' st rendered data)"
      by (rule onSubmit_gated(3))
  qed
next
  show "creates_component_record (onSubmit b user' st rendered data)
        \<or> (\<exists>r. UploadToR2 r \<in> set (onSubmit b user' st rendered data))
      \<longrightarrow> [] \<notin> snd ` set (internalDependencies st)"
  proof (intro impI notI)
    assume e: "[] \<in> snd ` set (internalDependencies st)"
    assume "creates_component_record (onSubmit b user' st rendered data)
        \<or> (\<exists>r. UploadToR2 r \<in> set (onSubmit b user' st rendered data))"
    then show False
    proof
      assume "creates_component_record (onSubmit b user' st rendered data)"
      with onSubmit_gated(1)[OF e, of b user' rendered data] show False by simp
    next
      assume "\<exists>r. UploadToR2 r \<in> set (onSubmit b user' st rendered data)"
      then obtain r where "UploadToR2 r \<in> set (onSubmit b user' st rendered data)" ..
      with onSubmit_gated(2)[OF e, of r b user' rendered data] show False by simp
    qed
  qed
next
  show "(\<exists>u. user' = Some u \<and> u_id u \<noteq> []) \<and> [] \<notin> snd ` set (internalDependencies st)
      \<longrightarrow> (\<exists>r1 r2 rest. onSubmit b user' st rendered data
                            = SetIsLoading True # UploadToR2 r1 # UploadToR2 r2 # rest)"
  proof (intro impI)
    assume "(\<exists>u. user' = Some u \<and> u_id u \<noteq> []) \<and> [] \<notin> snd ` set (internalDependencies st)"
    then obtain u where "user' = Some u" "u_id u \<noteq> []"
      and "[] \<notin> snd ` set (internalDependencies st)" by auto
    then show "\<exists>r1 r2 rest. onSubmit b user' st rendered data
                            = SetIsLoading True # UploadToR2 r1 # UploadToR2 r2 # rest"
      by (rule onSubmit_proceeds)
  qed
qed

theorem onSubmit_unresolved_internal_dependency_witness:
  "onSubmit \<lparr>uploadToR2 = (\<lambda>r. Inr (js ''https://cdn/'' @ up_fileKey r)),
             insert_component = (\<lambda>cd. Inr \<lparr>sr_data = Some \<lparr>ic_id = 1\<rparr>, sr_error = None\<rparr>),
             addTagsToComponent = (\<lambda>i ts. Inr ())\<rparr>
            (Some \<lparr>u_id = js ''user_1''\<rparr>)
            \<lparr>parsedDependencies = [(js ''framer-motion'', js ''latest'')],
             parsedDemoDependencies = [], internalDependencies = [(js ''./card'', [])],
             parsedComponentNames = [js ''Button''], parsedDemoComponentName = js ''Demo''\<rparr>
            \<lparr>f_name = js ''Button'', f_component_slug = js ''button'', f_code = js ''c'',
             f_demo_code = js ''d'', f_description = [], f_tags = [],
             f_license = js ''mit'', f_preview_url = None\<rparr>
            \<lparr>f_name = js ''Button'', f_component_slug = js ''button'', f_code = js ''c'',
             f_demo_code = js ''d'', f_description = [], f_tags = [],
             f_license = js ''mit'', f_preview_url = None\<rparr>
     = [ConsoleError (js ''Internal dependencies not specified''),
        Alert (js ''Please specify the slug for all internal dependencies'')]
   \<and> (\<exists>r1 r2 rest.
        onSubmit \<lparr>uploadToR2 = (\<lambda>r. Inr (js ''https://cdn/'' @ up_fileKey r)),
             insert_component = (\<lambda>cd. Inr \<lparr>sr_data = Some \<lparr>ic_id = 1\<rparr>, sr_error = None\<rparr>),
             addTagsToComponent = (\<lambda>i ts. Inr ())\<rparr>
            (Some \<lparr>u_id = js ''user_1''\<rparr>)
            \<lparr>parsedDependencies = [(js ''framer-motion'', js ''latest'')],
             parsedDemoDependencies = [], internalDependencies = [(js ''./card'', js ''card'')],
             parsedComponentNames = [js ''Button''], parsedDemoComponentName = js ''Demo''\<rparr>
            \<lparr>f_name = js ''Button'', f_component_slug = js ''button'', f_code = js ''c'',
             f_demo_code = js ''d'', f_description = [], f_tags = [],
             f_license = js ''mit'', f_preview_url = None\<rparr>
            \<lparr>f_name = js ''Button'', f_component_slug = js ''button'', f_code = js ''c'',
             f_demo_code = js ''d'', f_description = [], f_tags = [],
             f_license = js ''mit'', f_preview_url = None\<rparr>
        = SetIsLoading True # UploadToR2 r1 # UploadToR2 r2 # rest)"
proof -
  define b :: backend where "b = \<lparr>uploadToR2 = (\<lambda>r. Inr (js ''https://cdn/'' @ up_fileKey r)),
             insert_component = (\<lambda>cd. Inr \<lparr>sr_data = Some \<lparr>ic_id = 1\<rparr>, sr_error = None\<rparr>),
             addTagsToComponent = (\<lambda>i ts. Inr ())\<rparr>"
  define u where "u = \<lparr>u_id = js ''user_1''\<rparr>"
  define st where "st = (\<lambda>slug. \<lparr>parsedDependencies = [(js ''framer-motion'', js ''latest'')],
             parsedDemoDependencies = [], internalDependencies = [(js ''./card'', slug)],
             parsedComponentNames = [js ''Button''], parsedDemoComponentName = js ''Demo''\<rparr>)"
  define f where "f = \<lparr>f_name = js ''Button'', f_component_slug = js ''button'', f_code = js ''c'',
             f_demo_code = js ''d'', f_description = [], f_tags = [],
             f_license = js ''mit'', f_preview_url = None\<rparr>"
  have u: "Some u = Some u \<and> u_id u \<noteq> []" by (simp add: u_def js_def)
  have empty: "[] \<in> snd ` set (internalDependencies (st []))" by (simp add: st_def)
  have full: "[] \<notin> snd ` set (internalDependencies (st (js ''card'')))"
    by (simp add: st_def js_def)
  note thm1 = onSubmit_unresolved_internal_dependency[of "st []" "Some u" b f f]
  note thm2 = onSubmit_unresolved_internal_dependency[of "st (js ''card'')" "Some u" b f f]
  from thm1 have "[] \<in> snd ` set (internalDependencies (st [])) \<longrightarrow>
       (\<forall>v. Some u = Some v \<and> u_id v \<noteq> [] \<longrightarrow>
            onSubmit b (Some u) (st []) f f
              = [ConsoleError (js ''Internal dependencies not specified''),
                 Alert (js ''Please specify the slug for all internal dependencies'')])
     \<and> \<not> creates_component_record (onSubmit b (Some u) (st []) f f)
     \<and> (\<forall>r. UploadToR2 r \<notin> set (onSubmit b (Some u) (st []) f f))
     \<and> (\<forall>cd. InsertComponent cd \<notin> set (onSubmit b (Some u) (st []) f f))"
    by (rule conjunct1)
  from this empty have "(\<forall>v. Some u = Some v \<and> u_id v \<noteq> [] \<longrightarrow>
            onSubmit b (Some u) (st []) f f
              = [ConsoleError (js ''Internal dependencies not specified''),
                 Alert (js ''Please specify the slug for all internal dependencies'')])
     \<and> \<not> creates_component_record (onSubmit b (Some u) (st []) f f)
     \<and> (\<forall>r. UploadToR2 r \<notin> set (onSubmit b (Some u) (st []) f f))
     \<and> (\<forall>cd. InsertComponent cd \<notin> set (onSubmit b (Some u) (st []) f f))"
    by (rule mp)
  then have "\<forall>v. Some u = Some v \<and> u_id v \<noteq> [] \<longrightarrow>
            onSubmit b (Some u) (st []) f f
              = [ConsoleError (js ''Internal dependencies not specified''),
                 Alert (js ''Please specify the slug for all internal dependencies'')]"
    by (rule conjunct1)
  then have "Some u = Some u \<and> u_id u \<noteq> [] \<longrightarrow>
            onSubmit b (Some u) (st []) f f
              = [ConsoleError (js ''Internal dependencies not specified''),
                 Alert (js ''Please specify the slug for all internal dependencies'')]"
    by (rule spec)
  from this u have first: "onSubmit b (Some u) (st []) f f
              = [ConsoleError (js ''Internal dependencies not specified''),
                 Alert (js ''Please specify the slug for all internal dependencies'')]"
    by (rule mp)
  from thm2 have "(\<exists>v. Some u = Some v \<and> u_id v \<noteq> [])
            \<and> [] \<notin> snd ` set (internalDependencies (st (js ''card'')))
      \<longrightarrow> (\<exists>r1 r2 rest. onSubmit b (Some u) (st (js ''card'')) f f
                            = SetIsLoading True # UploadToR2 r1 # UploadToR2 r2 # rest)"
    by (rule conjunct2[OF conjunct2])
  moreover have "(\<exists>v. Some u = Some v \<and> u_id v \<noteq> [])
            \<and> [] \<notin> snd ` set (internalDependencies (st (js ''card'')))"
    using u full by blast
  ultimately have second: "\<exists>r1 r2 rest. onSubmit b (Some u) (st (js ''card'')) f f
                            = SetIsLoading True # UploadToR2 r1 # UploadToR2 r2 # rest"
    by (rule mp)
  from first second show ?thesis
    unfolding b_def u_def st_def f_def by (rule conjI)
qed

text \<open>
  C2 (as the code has it). The analysis effect does not merge: when \<^verbatim>\<open>code\<close> or \<^verbatim>\<open>demoCode\<close>
  changed and the five parser calls return, the stored internal-dependency map becomes
  the map \<^verbatim>\<open>findInternalDependencies(code, demoCode)\<close> returns, whatever was stored before
  (keys the analysis no longer finds are gone, keys it finds are there with the value the
  analysis gives them, and a slug typed in before is not kept). When a parser throws, or
  when neither text changed (the effect does not run), the stored state stays as it is.
  Typing a slug for one path sets that path's value and leaves every other path's value.
\<close>

theorem updateDependencies_effect_replaces:
  "(rendered_before = Some (c, d) \<longrightarrow>
      updateDependencies_effect p rendered_before c d prev = prev)
   \<and> (rendered_before \<noteq> Some (c, d) \<longrightarrow>
        (\<forall>names ds dds n ids.
            extractComponentNames p c = Inr names \<and> extractDependencies p c = Inr ds
            \<and> extractDependencies p d = Inr dds \<and> extractDemoComponentName p d = Inr n
            \<and> findInternalDependencies p c d = Inr ids
          \<longrightarrow> internalDependencies (updateDependencies_effect p rendered_before c d prev) = ids)
        \<and> ((\<exists>e. extractComponentNames p c = Inl e \<or> extractDependencies p c = Inl e
                \<or> extractDependencies p d = Inl e \<or> extractDemoComponentName p d = Inl e
                \<or> findInternalDependencies p c d = Inl e)
          \<longrightarrow> updateDependencies_effect p rendered_before c d prev = prev))
   \<and> map_of (internalDependencies (InputInternalDependenciesCard_onChange pa v prev))
       = (map_of (internalDependencies prev))(pa \<mapsto> v)"
proof (intro conjI impI allI)
  assume "rendered_before = Some (c, d)"
  then show "updateDependencies_effect p rendered_before c d prev = prev"
    by (simp add: updateDependencies_effect_def)
next
  fix names ds dds n ids
  assume "rendered_before \<noteq> Some (c, d)"
    and "extractComponentNames p c = Inr names \<and> extractDependencies p c = Inr ds
            \<and> extractDependencies p d = Inr dds \<and> extractDemoComponentName p d = Inr n
            \<and> findInternalDependencies p c d = Inr ids"
  then show "internalDependencies (updateDependencies_effect p rendered_before c d prev) = ids"
    by (simp add: updateDependencies_effect_def updateDependencies_def)
next
  assume "rendered_before \<noteq> Some (c, d)"
    and "\<exists>e. extractComponentNames p c = Inl e \<or> extractDependencies p c = Inl e
                \<or> extractDependencies p d = Inl e \<or> extractDemoComponentName p d = Inl e
                \<or> findInternalDependencies p c d = Inl e"
  then show "updateDependencies_effect p rendered_before c d prev = prev"
    by (auto simp: updateDependencies_effect_def updateDependencies_def split: sum.splits)
next
  show "map_of (internalDependencies (InputInternalDependenciesCard_onChange pa v prev))
       = (map_of (internalDependencies prev))(pa \<mapsto> v)"
    by (rule map_of_onChange)
qed

theorem updateDependencies_effect_replaces_witness:
  "internalDependencies
     (updateDependencies_effect
        \<lparr>extractComponentNames = (\<lambda>s. Inr [js ''Button'']),
         extractDependencies = (\<lambda>s. Inr []),
         extractDemoComponentName = (\<lambda>s. Inr (js ''Demo'')),
         findInternalDependencies = (\<lambda>s t. Inr [(js ''./card'', [])]),
         removeComponentImports = (\<lambda>s ns. Inr (s, [])),
         prepareFilesForPreview = (\<lambda>s t dark. Inl NonError)\<rparr>
        (Some (js ''import { Card } from \"./card\"'', js ''export default function Demo() {}''))
        (js ''import { Card } from \"./card\";'') (js ''export default function Demo() {}'')
        \<lparr>parsedDependencies = [], parsedDemoDependencies = [],
         internalDependencies = [(js ''./card'', js ''card'')],
         parsedComponentNames = [js ''Button''], parsedDemoComponentName = js ''Demo''\<rparr>)
     = [(js ''./card'', [])]
   \<and> updateDependencies_effect
        \<lparr>extractComponentNames = (\<lambda>s. Inr [js ''Button'']),
         extractDependencies = (\<lambda>s. Inr []),
         extractDemoComponentName = (\<lambda>s. Inr (js ''Demo'')),
         findInternalDependencies = (\<lambda>s t. Inr [(js ''./card'', [])]),
         removeComponentImports = (\<lambda>s ns. Inr (s, [])),
         prepareFilesForPreview = (\<lambda>s t dark. Inl NonError)\<rparr>
        (Some (js ''import { Card } from \"./card\";'', js ''export default function Demo() {}''))
        (js ''import { Card } from \"./card\";'') (js ''export default function Demo() {}'')
        \<lparr>parsedDependencies = [], parsedDemoDependencies = [],
         internalDependencies = [(js ''./card'', js ''card'')],
         parsedComponentNames = [js ''Button''], parsedDemoComponentName = js ''Demo''\<rparr>
       = \<lparr>parsedDependencies = [], parsedDemoDependencies = [],
          internalDependencies = [(js ''./card'', js ''card'')],
          parsedComponentNames = [js ''Button''], parsedDemoComponentName = js ''Demo''\<rparr>"
proof -
  define p :: parsers where "p = \<lparr>extractComponentNames = (\<lambda>s. Inr [js ''Button'']),
         extractDependencies = (\<lambda>s. Inr []),
         extractDemoComponentName = (\<lambda>s. Inr (js ''Demo'')),
         findInternalDependencies = (\<lambda>s t. Inr [(js ''./card'', [])]),
         removeComponentImports = (\<lambda>s ns. Inr (s, [])),
         prepareFilesForPreview = (\<lambda>s t dark. Inl NonError)\<rparr>"
  define c_old where "c_old = js ''import { Card } from \"./card\"''"
  define c where "c = js ''import { Card } from \"./card\";''"
  define d where "d = js ''export default function Demo() {}''"
  define prev where "prev = \<lparr>parsedDependencies = [], parsedDemoDependencies = [],
         internalDependencies = [(js ''./card'', js ''card'')],
         parsedComponentNames = [js ''Button''], parsedDemoComponentName = js ''Demo''\<rparr>"
  have changed: "Some (c_old, d) \<noteq> Some (c, d)" by (simp add: c_old_def c_def js_def)
  have parsed: "extractComponentNames p c = Inr [js ''Button''] \<and> extractDependencies p c = Inr []
            \<and> extractDependencies p d = Inr [] \<and> extractDemoComponentName p d = Inr (js ''Demo'')
            \<and> findInternalDependencies p c d = Inr [(js ''./card'', [])]"
    by (simp add: p_def)
  have "internalDependencies (updateDependencies_effect p (Some (c_old, d)) c d prev)
          = [(js ''./card'', [])]"
    using updateDependencies_effect_replaces[of "Some (c_old, d)" c d p prev] changed parsed
    by blast
  moreover have "updateDependencies_effect p (Some (c, d)) c d prev = prev"
    using updateDependencies_effect_replaces[of "Some (c, d)" c d p prev] by blast
  ultimately show ?thesis
    unfolding p_def c_old_def c_def d_def prev_def by (rule conjI)
qed

text \<open>
  The claim C2 as stated fails: a slug entered for \<^verbatim>\<open>./card\<close> is lost when the component
  text changes by one character, although the text still imports \<^verbatim>\<open>./card\<close>.
\<close>

theorem updateDependencies_effect_drops_slug:
  "map_of [(js ''./card'', js ''card'')] (js ''./card'') = Some (js ''card'')
   \<and> map_of (internalDependencies
        (updateDependencies_effect
           \<lparr>extractComponentNames = (\<lambda>s. Inr [js ''Button'']),
            extractDependencies = (\<lambda>s. Inr []),
            extractDemoComponentName = (\<lambda>s. Inr (js ''Demo'')),
            findInternalDependencies = (\<lambda>s t. Inr [(js ''./card'', [])]),
            removeComponentImports = (\<lambda>s ns. Inr (s, [])),
            prepareFilesForPreview = (\<lambda>s t dark. Inl NonError)\<rparr>
           (Some (js ''import { Card } from \"./card\"'', js ''export default function Demo() {}''))
           (js ''import { Card } from \"./card\";'') (js ''export default function Demo() {}'')
           \<lparr>parsedDependencies = [], parsedDemoDependencies = [],
            internalDependencies = [(js ''./card'', js ''card'')],
            parsedComponentNames = [js ''Button''], parsedDemoComponentName = js ''Demo''\<rparr>))
        (js ''./card'')
      = Some []"
  by (simp add: updateDependencies_effect_def updateDependencies_def js_def)






subsection \<open>The rewrite effects and the preview gate\<close>

text \<open>
  Whatever \<^verbatim>\<open>wrapExportInBraces\<close> does, its effect changes the component code at most once:
  a second run finds the flag set and leaves the state as the first run left it.
\<close>

lemma wrapExportInBraces_effect_once:
  assumes "wrapExportInBraces_effect wrap (exportWrapped, st) = Inr s'"
  shows "wrapExportInBraces_effect wrap s' = Inr s'"
  using assms
  by (auto simp: wrapExportInBraces_effect_def Let_def split: if_splits sum.splits)

text \<open>
  The effect of \<^verbatim>\<open>removeAsyncFromExport\<close> run twice gives what one run gives exactly when
  the function, applied to its own result, returns that result (or the result is empty).
\<close>

lemma removeAsyncFromExport_effect_twice:
  assumes "f_demo_code (form st) \<noteq> []" and "strip (f_demo_code (form st)) = Inr m"
  shows "removeAsyncFromExport_effect strip st = Inr (st\<lparr>form := (form st)\<lparr>f_demo_code := m\<rparr>\<rparr>)"
    and "removeAsyncFromExport_effect strip (st\<lparr>form := (form st)\<lparr>f_demo_code := m\<rparr>\<rparr>)
           = Inr (st\<lparr>form := (form st)\<lparr>f_demo_code := m\<rparr>\<rparr>)
         \<longleftrightarrow> m = [] \<or> strip m = Inr m"
proof -
  let ?st = "st\<lparr>form := (form st)\<lparr>f_demo_code := m\<rparr>\<rparr>"
  show "removeAsyncFromExport_effect strip st = Inr ?st"
    using assms by (auto simp: removeAsyncFromExport_effect_def Let_def)
  have demo: "f_demo_code (form ?st) = m" by simp
  show "removeAsyncFromExport_effect strip ?st = Inr ?st \<longleftrightarrow> m = [] \<or> strip m = Inr m"
  proof (cases "m = []")
    case True
    then show ?thesis by (simp add: removeAsyncFromExport_effect_def)
  next
    case False
    show ?thesis
    proof (cases "strip m")
      case (Inl e)
      with False show ?thesis by (simp add: removeAsyncFromExport_effect_def)
    next
      case (Inr m')
      have "?st\<lparr>form := (form ?st)\<lparr>f_demo_code := m'\<rparr>\<rparr> = ?st \<longleftrightarrow> m' = m"
      proof
        assume "?st\<lparr>form := (form ?st)\<lparr>f_demo_code := m'\<rparr>\<rparr> = ?st"
        then have "f_demo_code (form (?st\<lparr>form := (form ?st)\<lparr>f_demo_code := m'\<rparr>\<rparr>))
                     = f_demo_code (form ?st)"
          by (rule arg_cong)
        then show "m' = m" by simp
      next
        assume "m' = m"
        then show "?st\<lparr>form := (form ?st)\<lparr>f_demo_code := m'\<rparr>\<rparr> = ?st" by simp
      qed
      with False Inr show ?thesis
        by (auto simp: removeAsyncFromExport_effect_def Let_def)
    qed
  qed
qed

text \<open>
  The preview is prepared only when both texts are present, no internal dependency is
  pending, and the last run of \<^verbatim>\<open>removeComponentImports\<close> removed nothing.
\<close>

lemma previewProps_effect_gate:
  assumes "previewProps_effect p isDarkTheme st = Inr st'"
  shows "previewProps st' \<noteq> None \<longleftrightarrow>
           f_code (form st) \<noteq> [] \<and> f_demo_code (form st) \<noteq> []
           \<and> internalDependencies (deps st) = [] \<and> importsToRemove st = Some []"
  using assms
  by (auto simp: previewProps_effect_def Object_keys_def Let_def
      split: if_splits sum.splits option.splits)

lemma isPreviewReady_gate:
  "isPreviewReady st \<longleftrightarrow>
     previewProps st \<noteq> None \<and> internalDependencies (deps st) = []
     \<and> importsToRemove st \<noteq> None \<and> f_code (form st) \<noteq> [] \<and> f_demo_code (form st) \<noteq> []"
  by (simp add: isPreviewReady_def Object_keys_def)

section \<open>Properties of the component page\<close>

lemma use_client_regex_None:
  "use_client_regex raw = None \<longleftrightarrow> \<not> (\<exists>t. raw = use_client_directive @ t)"
  by (auto simp: use_client_regex_def Let_def) (metis append_eq_conv_conj)

lemma use_client_regex_Some:
  assumes "raw = use_client_directive @ t"
  shows "\<exists>semi ws rest. t = semi @ ws @ rest
           \<and> (semi = [] \<or> semi = [0x3B])
           \<and> (semi = [] \<longrightarrow> ws @ rest = [] \<or> hd (ws @ rest) \<noteq> 0x3B)
           \<and> (\<forall>c\<in>set ws. is_js_whitespace c)
           \<and> (rest = [] \<or> \<not> is_js_whitespace (hd rest))
           \<and> use_client_regex raw = Some rest"
proof (cases "t \<noteq> [] \<and> hd t = 0x3B")
  case True
  then obtain cs where t: "t = 0x3B # cs" by (cases t) auto
  let ?ws = "takeWhile is_js_whitespace cs" and ?rest = "dropWhile is_js_whitespace cs"
  have "t = [0x3B] @ ?ws @ ?rest" using t by simp
  moreover have "\<forall>c\<in>set ?ws. is_js_whitespace c" by (auto dest: set_takeWhileD)
  moreover have "?rest = [] \<or> \<not> is_js_whitespace (hd ?rest)"
    using hd_dropWhile by blast
  moreover have "use_client_regex raw = Some ?rest"
    using assms t by (simp add: use_client_regex_def)
  ultimately show ?thesis by blast
next
  case False
  let ?ws = "takeWhile is_js_whitespace t" and ?rest = "dropWhile is_js_whitespace t"
  have "t = [] @ ?ws @ ?rest" by simp
  moreover have "?ws @ ?rest = [] \<or> hd (?ws @ ?rest) \<noteq> 0x3B" using False by auto
  moreover have "\<forall>c\<in>set ?ws. is_js_whitespace c" by (auto dest: set_takeWhileD)
  moreover have "?rest = [] \<or> \<not> is_js_whitespace (hd ?rest)"
    using hd_dropWhile by blast
  moreover have "use_client_regex raw = Some ?rest"
    using assms False by (cases t) (auto simp add: use_client_regex_def)
  ultimately show ?thesis by blast
qed

text \<open>
  C10. If the stored demo code begins with the directive \<^verbatim>\<open>"use client"\<close>, it is the
  directive, then an optional semicolon, then a run of white space, then a rest that
  does not begin with white space; and the rendered demo code is the directive with a
  semicolon and a line feed, the import line, a line feed, and that rest: the directive
  stays first and is gone from where it stood. If the stored demo code does not begin
  with the directive, the rendered demo code is the import line, a line feed, and the
  stored demo code unchanged.
\<close>

theorem demoCode_keeps_use_client:
  "(\<forall>t. rawDemoCode = use_client_directive @ t \<longrightarrow>
      (\<exists>semi ws rest. t = semi @ ws @ rest
         \<and> (semi = [] \<or> semi = js '';'')
         \<and> (semi = [] \<longrightarrow> ws @ rest = [] \<or> hd (ws @ rest) \<noteq> 0x3B)
         \<and> (\<forall>c\<in>set ws. is_js_whitespace c)
         \<and> (rest = [] \<or> \<not> is_js_whitespace (hd rest))
         \<and> demoCode componentNames component_slug rawDemoCode
             = use_client_directive @ js '';'' @ [0x0A]
                 @ importStatements componentNames component_slug @ [0x0A] @ rest))
   \<and> ((\<nexists>t. rawDemoCode = use_client_directive @ t) \<longrightarrow>
        demoCode componentNames component_slug rawDemoCode
          = importStatements componentNames component_slug @ [0x0A] @ rawDemoCode)"
proof (intro conjI allI impI)
  fix t assume raw: "rawDemoCode = use_client_directive @ t"
  from use_client_regex_Some[OF raw] obtain semi ws rest where
    *: "t = semi @ ws @ rest" "semi = [] \<or> semi = [0x3B]"
       "semi = [] \<longrightarrow> ws @ rest = [] \<or> hd (ws @ rest) \<noteq> 0x3B"
       "\<forall>c\<in>set ws. is_js_whitespace c" "rest = [] \<or> \<not> is_js_whitespace (hd rest)"
       "use_client_regex rawDemoCode = Some rest"
    by blast
  have "demoCode componentNames component_slug rawDemoCode
             = use_client_directive @ js '';'' @ [0x0A]
                 @ importStatements componentNames component_slug @ [0x0A] @ rest"
    using *(6)
    by (simp add: demoCode_def use_client_regex_test_def use_client_regex_replace_def
        use_client_directive_def js_def)
  moreover have "js '';'' = [0x3B]" by (simp add: js_def)
  ultimately show "\<exists>semi ws rest. t = semi @ ws @ rest
         \<and> (semi = [] \<or> semi = js '';'')
         \<and> (semi = [] \<longrightarrow> ws @ rest = [] \<or> hd (ws @ rest) \<noteq> 0x3B)
         \<and> (\<forall>c\<in>set ws. is_js_whitespace c)
         \<and> (rest = [] \<or> \<not> is_js_whitespace (hd rest))
         \<and> demoCode componentNames component_slug rawDemoCode
             = use_client_directive @ js '';'' @ [0x0A]
                 @ importStatements componentNames component_slug @ [0x0A] @ rest"
    using * by metis
next
  assume "\<nexists>t. rawDemoCode = use_client_directive @ t"
  then have "use_client_regex rawDemoCode = None" by (simp add: use_client_regex_None)
  then show "demoCode componentNames component_slug rawDemoCode
          = importStatements componentNames component_slug @ [0x0A] @ rawDemoCode"
    by (simp add: demoCode_def use_client_regex_test_def)
qed

theorem demoCode_keeps_use_client_witness:
  "demoCode [js ''Button'', js ''Icon''] (js ''button'')
       (js ''\"use client\";'' @ [0x0A, 0x0A] @ js ''export default function Demo() {}'')
     = js ''\"use client\";'' @ [0x0A] @ js ''import { Button, Icon } from \"./button\";''
         @ [0x0A, 0x0A] @ js ''export default function Demo() {}''
   \<and> demoCode [js ''Button'', js ''Icon''] (js ''button'')
         (js ''export default function Demo() {}'')
       = js ''import { Button, Icon } from \"./button\";'' @ [0x0A, 0x0A]
           @ js ''export default function Demo() {}''"
proof -
  let ?names = "[js ''Button'', js ''Icon'']"
  let ?body = "js ''export default function Demo() {}''"
  let ?raw = "js ''\"use client\";'' @ [0x0A, 0x0A] @ ?body"
  have import: "importStatements ?names (js ''button'')
                  = js ''import { Button, Icon } from \"./button\";'' @ [0x0A]"
    by (simp add: importStatements_def js_def)
  have "?raw = use_client_directive @ (0x3B # 0x0A # 0x0A # ?body)"
    by (simp add: use_client_directive_def js_def)
  with demoCode_keeps_use_client[of ?raw ?names "js ''button''"]
  obtain semi ws rest where
    *: "0x3B # 0x0A # 0x0A # ?body = semi @ ws @ rest" "semi = [] \<or> semi = js '';''"
       "semi = [] \<longrightarrow> ws @ rest = [] \<or> hd (ws @ rest) \<noteq> 0x3B"
       "\<forall>c\<in>set ws. is_js_whitespace c" "rest = [] \<or> \<not> is_js_whitespace (hd rest)"
       "demoCode ?names (js ''button'') ?raw
          = use_client_directive @ js '';'' @ [0x0A]
              @ importStatements ?names (js ''button'') @ [0x0A] @ rest"
    by blast
  have semi: "semi = [0x3B]"
  proof (rule ccontr)
    assume "semi \<noteq> [0x3B]"
    with *(2) have "semi = []" by (simp add: js_def)
    with *(1) have "ws @ rest = 0x3B # 0x0A # 0x0A # ?body" by simp
    with *(3) \<open>semi = []\<close> show False by simp
  qed
  then have ws_rest: "ws @ rest = 0x0A # 0x0A # ?body" using *(1) by simp
  have not_ws: "\<not> is_js_whitespace (hd ?body)" by (simp add: js_def is_js_whitespace_def)
  have "rest = ?body"
  proof (cases ws)
    case Nil
    with ws_rest *(5) show ?thesis by (auto simp: is_js_whitespace_def)
  next
    case (Cons a ws')
    with ws_rest have ws': "ws' @ rest = 0x0A # ?body" by simp
    show ?thesis
    proof (cases ws')
      case Nil
      with ws' *(5) show ?thesis by (auto simp: is_js_whitespace_def)
    next
      case (Cons b ws'')
      with ws' have ws'': "ws'' @ rest = ?body" by simp
      show ?thesis
      proof (cases ws'')
        case Nil
        with ws'' show ?thesis by simp
      next
        case (Cons c ws''')
        with ws'' have "c = hd ?body" by (simp add: js_def)
        moreover have "is_js_whitespace c" using *(4) \<open>ws = a # ws'\<close> \<open>ws' = b # ws''\<close> Cons by simp
        ultimately show ?thesis using not_ws by simp
      qed
    qed
  qed
  with *(6) import have first: "demoCode ?names (js ''button'') ?raw
     = js ''\"use client\";'' @ [0x0A] @ js ''import { Button, Icon } from \"./button\";''
         @ [0x0A, 0x0A] @ ?body"
    by (simp add: use_client_directive_def js_def)
  have "\<nexists>t. ?body = use_client_directive @ t"
    by (simp add: use_client_directive_def js_def)
  with demoCode_keeps_use_client[of ?body ?names "js ''button''"] import
  have second: "demoCode ?names (js ''button'') ?body
       = js ''import { Button, Icon } from \"./button\";'' @ [0x0A, 0x0A] @ ?body"
    by simp
  from first second show ?thesis by blast
qed

text \<open>
  What the page reads as the demo component name: the first element of a stored array,
  the first code unit of a stored string, nothing for an empty one.
\<close>

lemma demoComponentName_index_zero:
  "demoComponentName (JArray (x # xs)) = Inr (Some x)"
  "demoComponentName (JString (c # cs)) = Inr (Some (JString [c]))"
  "demoComponentName (JArray []) = Inr None"
  "demoComponentName (JString []) = Inr None"
  by (simp_all add: demoComponentName_def)

section \<open>Properties of the Registry Dependency Resolver\<close>

lemma set_enqueue: "set (enqueue t worklist found) = set worklist \<union> set found"
  by (cases t) (auto simp: enqueue_def)

lemma closed_covers_reachable:
  assumes seeds: "set seeds \<subseteq> V"
    and closed: "\<And>v e s. v \<in> V \<Longrightarrow> fetch store v = Some (e, s)
                   \<Longrightarrow> set (Object_values (internal_dependencies e)) \<subseteq> V"
  shows "reachable store seeds \<subseteq> V"
proof
  fix i assume "i \<in> reachable store seeds"
  then show "i \<in> V"
  proof induction
    case (seed i)
    with seeds show ?case by blast
  next
    case (dependency i entry src d)
    with closed show ?case by blast
  qed
qed

lemma resolve_loop_invariant:
  assumes "distinct visited" and "map fst result = visited"
    and "set visited \<subseteq> reachable store seeds"
    and "set worklist \<subseteq> reachable store seeds"
    and "\<And>v e s. v \<in> set visited \<Longrightarrow> fetch store v = Some (e, s)
           \<Longrightarrow> set (Object_values (internal_dependencies e)) \<subseteq> set visited \<union> set worklist"
    and "set seeds \<subseteq> set visited \<union> set worklist"
    and "\<And>i r. (i, r) \<in> set result \<Longrightarrow>
           \<exists>e. fetch store i = Some (e, sourceText r) \<and> registryNamespace r = registry_namespace e"
  shows "distinct (fst (resolve_loop t store worklist visited result))
       \<and> (\<forall>res. snd (resolve_loop t store worklist visited result) = Inr res \<longrightarrow>
              map fst res = fst (resolve_loop t store worklist visited result)
            \<and> set (fst (resolve_loop t store worklist visited result)) = reachable store seeds
            \<and> (\<forall>i r. (i, r) \<in> set res \<longrightarrow>
                  (\<exists>e. fetch store i = Some (e, sourceText r)
                       \<and> registryNamespace r = registry_namespace e)))
       \<and> (\<forall>i. snd (resolve_loop t store worklist visited result) = Inl (DependencyNotFound i) \<longrightarrow>
              i \<in> reachable store seeds \<and> fetch store i = None
            \<and> set (fst (resolve_loop t store worklist visited result)) \<subseteq> reachable store seeds)"
  using assms
proof (induction t store worklist visited result rule: resolve_loop.induct)
  case (1 t store visited result)
  have "reachable store seeds \<subseteq> set visited"
    using closed_covers_reachable[of seeds "set visited" store] 1(5,6) by auto
  with 1 show ?case by auto
next
  case (2 t store i worklist visited result)
  show ?case
  proof (cases "i \<in> set visited")
    case True
    have "distinct (fst (resolve_loop t store worklist visited result))
       \<and> (\<forall>res. snd (resolve_loop t store worklist visited result) = Inr res \<longrightarrow>
              map fst res = fst (resolve_loop t store worklist visited result)
            \<and> set (fst (resolve_loop t store worklist visited result)) = reachable store seeds
            \<and> (\<forall>i r. (i, r) \<in> set res \<longrightarrow>
                  (\<exists>e. fetch store i = Some (e, sourceText r)
                       \<and> registryNamespace r = registry_namespace e)))
       \<and> (\<forall>i. snd (resolve_loop t store worklist visited result) = Inl (DependencyNotFound i) \<longrightarrow>
              i \<in> reachable store seeds \<and> fetch store i = None
            \<and> set (fst (resolve_loop t store worklist visited result)) \<subseteq> reachable store seeds)"
    proof (rule "2.IH"(1)[OF True])
      show "distinct visited" by (rule "2.prems"(1))
      show "map fst result = visited" by (rule "2.prems"(2))
      show "set visited \<subseteq> reachable store seeds" by (rule "2.prems"(3))
      show "set worklist \<subseteq> reachable store seeds" using "2.prems"(4) by simp
      show "set (Object_values (internal_dependencies e)) \<subseteq> set visited \<union> set worklist"
        if "v \<in> set visited" "fetch store v = Some (e, s)" for v e s
        using "2.prems"(5)[OF that] True by auto
      show "set seeds \<subseteq> set visited \<union> set worklist" using "2.prems"(6) True by auto
      show "\<exists>e. fetch store j = Some (e, sourceText r) \<and> registryNamespace r = registry_namespace e"
        if "(j, r) \<in> set result" for j r
        using "2.prems"(7)[OF that] .
    qed
    with True show ?thesis by simp
  next
    case False
    have i_reach: "i \<in> reachable store seeds" using "2.prems"(4) by simp
    show ?thesis
    proof (cases "fetch store i")
      case None
      with False "2.prems"(1,3) i_reach show ?thesis by simp
    next
      case (Some x2)
      obtain entry src where x2: "x2 = (entry, src)" by (cases x2)
      let ?found = "filter (\<lambda>slug. slug \<notin> set (visited @ [i]))
                      (Object_values (internal_dependencies entry))"
      let ?worklist = "enqueue t worklist ?found"
      let ?visited = "visited @ [i]"
      let ?result = "result @ [(i, \<lparr>sourceText = src,
                                     registryNamespace = registry_namespace entry\<rparr>)]"
      have fetch_i: "fetch store i = Some (entry, src)" using Some x2 by simp
      have deps_reach: "set (Object_values (internal_dependencies entry)) \<subseteq> reachable store seeds"
        using reachable.dependency[OF i_reach fetch_i] by blast
      have "distinct (fst (resolve_loop t store ?worklist ?visited ?result))
       \<and> (\<forall>res. snd (resolve_loop t store ?worklist ?visited ?result) = Inr res \<longrightarrow>
              map fst res = fst (resolve_loop t store ?worklist ?visited ?result)
            \<and> set (fst (resolve_loop t store ?worklist ?visited ?result)) = reachable store seeds
            \<and> (\<forall>i r. (i, r) \<in> set res \<longrightarrow>
                  (\<exists>e. fetch store i = Some (e, sourceText r)
                       \<and> registryNamespace r = registry_namespace e)))
       \<and> (\<forall>i. snd (resolve_loop t store ?worklist ?visited ?result) = Inl (DependencyNotFound i) \<longrightarrow>
              i \<in> reachable store seeds \<and> fetch store i = None
            \<and> set (fst (resolve_loop t store ?worklist ?visited ?result)) \<subseteq> reachable store seeds)"
      proof (rule "2.IH"(2)[OF False Some x2[symmetric]])
        show "distinct ?visited" using "2.prems"(1) False by simp
        show "map fst ?result = ?visited" using "2.prems"(2) by simp
        show "set ?visited \<subseteq> reachable store seeds" using "2.prems"(3) i_reach by simp
        show "set ?worklist \<subseteq> reachable store seeds"
          using "2.prems"(4) deps_reach by (auto simp: set_enqueue)
        show "set (Object_values (internal_dependencies e)) \<subseteq> set ?visited \<union> set ?worklist"
          if "v \<in> set ?visited" "fetch store v = Some (e, s)" for v e s
        proof (cases "v = i")
          case True
          with that fetch_i have "e = entry" by simp
          then show ?thesis by (auto simp: set_enqueue)
        next
          case False
          with that have "v \<in> set visited" by simp
          from "2.prems"(5)[OF this that(2)] show ?thesis by (auto simp: set_enqueue)
        qed
        show "set seeds \<subseteq> set ?visited \<union> set ?worklist"
          using "2.prems"(6) by (auto simp: set_enqueue)
        show "\<exists>e. fetch store j = Some (e, sourceText r) \<and> registryNamespace r = registry_namespace e"
          if "(j, r) \<in> set ?result" for j r
          using that "2.prems"(7)[of j r] fetch_i by auto
      qed
      with False fetch_i show ?thesis by simp
    qed
  qed
qed

lemma reachable_set_seeds:
  assumes "set seeds' = set seeds"
  shows "reachable store seeds' = reachable store seeds"
proof -
  have "reachable store xs \<subseteq> reachable store ys" if "set xs = set ys" for xs ys
  proof (rule closed_covers_reachable)
    show "set xs \<subseteq> reachable store ys" using that by (auto intro: reachable.seed)
    show "set (Object_values (internal_dependencies e)) \<subseteq> reachable store ys"
      if "v \<in> reachable store ys" "fetch store v = Some (e, s)" for v e s
      using reachable.dependency[OF that] by blast
  qed
  from this[of seeds' seeds] this[of seeds seeds'] assms show ?thesis by auto
qed

lemma resolver_invariant:
  "distinct (fst (resolveRegistryDependencyTree t store seeds))
   \<and> (\<forall>res. snd (resolveRegistryDependencyTree t store seeds) = Inr res \<longrightarrow>
          map fst res = fst (resolveRegistryDependencyTree t store seeds)
        \<and> set (fst (resolveRegistryDependencyTree t store seeds)) = reachable store seeds
        \<and> (\<forall>i r. (i, r) \<in> set res \<longrightarrow>
              (\<exists>e. fetch store i = Some (e, sourceText r)
                   \<and> registryNamespace r = registry_namespace e)))
   \<and> (\<forall>i. snd (resolveRegistryDependencyTree t store seeds) = Inl (DependencyNotFound i) \<longrightarrow>
          i \<in> reachable store seeds \<and> fetch store i = None
        \<and> set (fst (resolveRegistryDependencyTree t store seeds)) \<subseteq> reachable store seeds)"
  unfolding resolveRegistryDependencyTree_def
  by (rule resolve_loop_invariant) (auto intro: reachable.seed)

lemma resolver_succeeds_iff:
  "(\<exists>res. snd (resolveRegistryDependencyTree t store seeds) = Inr res)
     \<longleftrightarrow> (\<forall>i\<in>reachable store seeds. fetch store i \<noteq> None)"
proof
  assume "\<exists>res. snd (resolveRegistryDependencyTree t store seeds) = Inr res"
  then obtain res where res: "snd (resolveRegistryDependencyTree t store seeds) = Inr res" ..
  with resolver_invariant[of t store seeds]
  have "map fst res = fst (resolveRegistryDependencyTree t store seeds)"
    and "set (fst (resolveRegistryDependencyTree t store seeds)) = reachable store seeds"
    and vals: "\<forall>i r. (i, r) \<in> set res \<longrightarrow>
              (\<exists>e. fetch store i = Some (e, sourceText r)
                   \<and> registryNamespace r = registry_namespace e)"
    by blast+
  then have keys: "set (map fst res) = reachable store seeds" by simp
  have ok: "\<exists>e. fetch store i = Some (e, sourceText r)" if "(i, r) \<in> set res" for i r
    using vals that by blast
  show "\<forall>i\<in>reachable store seeds. fetch store i \<noteq> None"
  proof
    fix i assume "i \<in> reachable store seeds"
    with keys have "i \<in> fst ` set res" by simp
    then obtain r where "(i, r) \<in> set res" by force
    from ok[OF this] show "fetch store i \<noteq> None" by auto
  qed
next
  assume all: "\<forall>i\<in>reachable store seeds. fetch store i \<noteq> None"
  show "\<exists>res. snd (resolveRegistryDependencyTree t store seeds) = Inr res"
  proof (cases "snd (resolveRegistryDependencyTree t store seeds)")
    case (Inl e)
    obtain i where "e = DependencyNotFound i" by (cases e)
    with Inl resolver_invariant[of t store seeds] all show ?thesis by auto
  next
    case (Inr res)
    then show ?thesis by blast
  qed
qed

text \<open>
  C1. The resolver is a total function (its loop is defined with a termination proof:
  every fetch that succeeds takes one more identifier of the finite store into the
  visited set), so it returns for every store and every seed list, cyclic graphs
  included. The identifiers it fetched are pairwise distinct. When it returns a
  ResolvedSet, the keys of that set are the fetched identifiers, they are exactly the
  identifiers reachable from the seeds by following \<^verbatim>\<open>internal_dependencies\<close>, their number
  is the number of reachable identifiers, and each value is the fetched source text and
  namespace of its key. When it returns \<^verbatim>\<open>DependencyNotFound\<close>, the identifier named is
  reachable and cannot be fetched. It returns a ResolvedSet exactly when every reachable
  identifier can be fetched, and then the set of keys is the same for breadth-first and
  depth-first traversal and for every seed list with the same elements.
\<close>

theorem resolver_transitive_closure:
  "distinct (fst (resolveRegistryDependencyTree t store seeds))
   \<and> (\<forall>resolved. snd (resolveRegistryDependencyTree t store seeds) = Inr resolved \<longrightarrow>
          map fst resolved = fst (resolveRegistryDependencyTree t store seeds)
        \<and> distinct (map fst resolved)
        \<and> set (map fst resolved) = reachable store seeds
        \<and> length resolved = card (reachable store seeds)
        \<and> (\<forall>i r. (i, r) \<in> set resolved \<longrightarrow>
              (\<exists>e. fetch store i = Some (e, sourceText r)
                   \<and> registryNamespace r = registry_namespace e)))
   \<and> (\<forall>i. snd (resolveRegistryDependencyTree t store seeds) = Inl (DependencyNotFound i) \<longrightarrow>
          i \<in> reachable store seeds \<and> fetch store i = None)
   \<and> ((\<exists>resolved. snd (resolveRegistryDependencyTree t store seeds) = Inr resolved)
        \<longleftrightarrow> (\<forall>i\<in>reachable store seeds. fetch store i \<noteq> None))
   \<and> (\<forall>t' seeds'. set seeds' = set seeds \<longrightarrow>
          ((\<exists>resolved'. snd (resolveRegistryDependencyTree t' store seeds') = Inr resolved')
             \<longleftrightarrow> (\<exists>resolved. snd (resolveRegistryDependencyTree t store seeds) = Inr resolved))
        \<and> (\<forall>resolved resolved'.
              snd (resolveRegistryDependencyTree t store seeds) = Inr resolved
              \<and> snd (resolveRegistryDependencyTree t' store seeds') = Inr resolved'
            \<longrightarrow> set (map fst resolved') = set (map fst resolved)))"
proof (intro conjI)
  note inv = resolver_invariant[of t store seeds]
  show "distinct (fst (resolveRegistryDependencyTree t store seeds))"
    using inv by blast
  show "\<forall>resolved. snd (resolveRegistryDependencyTree t store seeds) = Inr resolved \<longrightarrow>
          map fst resolved = fst (resolveRegistryDependencyTree t store seeds)
        \<and> distinct (map fst resolved)
        \<and> set (map fst resolved) = reachable store seeds
        \<and> length resolved = card (reachable store seeds)
        \<and> (\<forall>i r. (i, r) \<in> set resolved \<longrightarrow>
              (\<exists>e. fetch store i = Some (e, sourceText r)
                   \<and> registryNamespace r = registry_namespace e))"
  proof (intro allI impI)
    fix resolved
    assume res: "snd (resolveRegistryDependencyTree t store seeds) = Inr resolved"
    with inv have keys: "map fst resolved = fst (resolveRegistryDependencyTree t store seeds)"
      and reach: "set (fst (resolveRegistryDependencyTree t store seeds)) = reachable store seeds"
      and vals: "\<forall>i r. (i, r) \<in> set resolved \<longrightarrow>
              (\<exists>e. fetch store i = Some (e, sourceText r)
                   \<and> registryNamespace r = registry_namespace e)"
      by blast+
    from inv keys have dist: "distinct (map fst resolved)" by simp
    from keys reach have set_keys: "set (map fst resolved) = reachable store seeds" by simp
    have "length resolved = card (set (map fst resolved))"
      using distinct_card[OF dist] by simp
    with set_keys have "length resolved = card (reachable store seeds)" by simp
    with keys dist set_keys vals
    show "map fst resolved = fst (resolveRegistryDependencyTree t store seeds)
        \<and> distinct (map fst resolved)
        \<and> set (map fst resolved) = reachable store seeds
        \<and> length resolved = card (reachable store seeds)
        \<and> (\<forall>i r. (i, r) \<in> set resolved \<longrightarrow>
              (\<exists>e. fetch store i = Some (e, sourceText r)
                   \<and> registryNamespace r = registry_namespace e))"
      by blast
  qed
  show "\<forall>i. snd (resolveRegistryDependencyTree t store seeds) = Inl (DependencyNotFound i) \<longrightarrow>
          i \<in> reachable store seeds \<and> fetch store i = None"
    using inv by blast
  show "(\<exists>resolved. snd (resolveRegistryDependencyTree t store seeds) = Inr resolved)
        \<longleftrightarrow> (\<forall>i\<in>reachable store seeds. fetch store i \<noteq> None)"
    by (rule resolver_succeeds_iff)
  show "\<forall>t' seeds'. set seeds' = set seeds \<longrightarrow>
          ((\<exists>resolved'. snd (resolveRegistryDependencyTree t' store seeds') = Inr resolved')
             \<longleftrightarrow> (\<exists>resolved. snd (resolveRegistryDependencyTree t store seeds) = Inr resolved))
        \<and> (\<forall>resolved resolved'.
              snd (resolveRegistryDependencyTree t store seeds) = Inr resolved
              \<and> snd (resolveRegistryDependencyTree t' store seeds') = Inr resolved'
            \<longrightarrow> set (map fst resolved') = set (map fst resolved))"
  proof (intro allI impI)
    fix t' seeds'
    assume "set seeds' = set seeds"
    then have same: "reachable store seeds' = reachable store seeds"
      by (rule reachable_set_seeds)
    note inv' = resolver_invariant[of t' store seeds']
    have "(\<exists>resolved'. snd (resolveRegistryDependencyTree t' store seeds') = Inr resolved')
             \<longleftrightarrow> (\<exists>resolved. snd (resolveRegistryDependencyTree t store seeds) = Inr resolved)"
      using resolver_succeeds_iff[of t' store seeds'] resolver_succeeds_iff[of t store seeds] same
      by simp
    moreover have "set (map fst resolved') = set (map fst resolved)"
      if "snd (resolveRegistryDependencyTree t store seeds) = Inr resolved
              \<and> snd (resolveRegistryDependencyTree t' store seeds') = Inr resolved'"
      for resolved resolved'
    proof -
      from that inv have "set (map fst resolved) = reachable store seeds" by metis
      moreover from that inv' have "set (map fst resolved') = reachable store seeds'" by metis
      ultimately show ?thesis using same by simp
    qed
    ultimately show "((\<exists>resolved'. snd (resolveRegistryDependencyTree t' store seeds') = Inr resolved')
             \<longleftrightarrow> (\<exists>resolved. snd (resolveRegistryDependencyTree t store seeds) = Inr resolved))
        \<and> (\<forall>resolved resolved'.
              snd (resolveRegistryDependencyTree t store seeds) = Inr resolved
              \<and> snd (resolveRegistryDependencyTree t' store seeds') = Inr resolved'
            \<longrightarrow> set (map fst resolved') = set (map fst resolved))"
      by blast
  qed
qed

theorem resolver_transitive_closure_witness:
  "resolveRegistryDependencyTree DepthFirst
      \<lparr>entries = [(js ''a/x'', \<lparr>registry_namespace = js ''ui'', code_source_unit = js ''x.tsx'',
                                 internal_dependencies = [(js ''./y'', js ''a/y'')]\<rparr>),
                  (js ''a/y'', \<lparr>registry_namespace = js ''hook'', code_source_unit = js ''y.tsx'',
                                 internal_dependencies = [(js ''./x'', js ''a/x'')]\<rparr>)],
       source_units = [(js ''x.tsx'', js ''X''), (js ''y.tsx'', js ''Y'')]\<rparr>
      [js ''a/x'']
     = ([js ''a/x'', js ''a/y''],
        Inr [(js ''a/x'', \<lparr>sourceText = js ''X'', registryNamespace = js ''ui''\<rparr>),
             (js ''a/y'', \<lparr>sourceText = js ''Y'', registryNamespace = js ''hook''\<rparr>)])
   \<and> reachable
      \<lparr>entries = [(js ''a/x'', \<lparr>registry_namespace = js ''ui'', code_source_unit = js ''x.tsx'',
                                 internal_dependencies = [(js ''./y'', js ''a/y'')]\<rparr>),
                  (js ''a/y'', \<lparr>registry_namespace = js ''hook'', code_source_unit = js ''y.tsx'',
                                 internal_dependencies = [(js ''./x'', js ''a/x'')]\<rparr>)],
       source_units = [(js ''x.tsx'', js ''X''), (js ''y.tsx'', js ''Y'')]\<rparr>
      [js ''a/x'']
     = {js ''a/x'', js ''a/y''}
   \<and> card (reachable
      \<lparr>entries = [(js ''a/x'', \<lparr>registry_namespace = js ''ui'', code_source_unit = js ''x.tsx'',
                                 internal_dependencies = [(js ''./y'', js ''a/y'')]\<rparr>),
                  (js ''a/y'', \<lparr>registry_namespace = js ''hook'', code_source_unit = js ''y.tsx'',
                                 internal_dependencies = [(js ''./x'', js ''a/x'')]\<rparr>)],
       source_units = [(js ''x.tsx'', js ''X''), (js ''y.tsx'', js ''Y'')]\<rparr>
      [js ''a/x'']) = 2
   \<and> resolveRegistryDependencyTree BreadthFirst
      \<lparr>entries = [(js ''a/x'', \<lparr>registry_namespace = js ''ui'', code_source_unit = js ''x.tsx'',
                                 internal_dependencies = [(js ''./y'', js ''a/y'')]\<rparr>),
                  (js ''a/y'', \<lparr>registry_namespace = js ''hook'', code_source_unit = js ''y.tsx'',
                                 internal_dependencies = [(js ''./x'', js ''a/x'')]\<rparr>)],
       source_units = [(js ''x.tsx'', js ''X''), (js ''y.tsx'', js ''Y'')]\<rparr>
      [js ''a/y'', js ''a/x'', js ''a/y'']
     = ([js ''a/y'', js ''a/x''],
        Inr [(js ''a/y'', \<lparr>sourceText = js ''Y'', registryNamespace = js ''hook''\<rparr>),
             (js ''a/x'', \<lparr>sourceText = js ''X'', registryNamespace = js ''ui''\<rparr>)])
   \<and> set (map fst [(js ''a/y'', \<lparr>sourceText = js ''Y'', registryNamespace = js ''hook''\<rparr>),
                     (js ''a/x'', \<lparr>sourceText = js ''X'', registryNamespace = js ''ui''\<rparr>)])
     = reachable
      \<lparr>entries = [(js ''a/x'', \<lparr>registry_namespace = js ''ui'', code_source_unit = js ''x.tsx'',
                                 internal_dependencies = [(js ''./y'', js ''a/y'')]\<rparr>),
                  (js ''a/y'', \<lparr>registry_namespace = js ''hook'', code_source_unit = js ''y.tsx'',
                                 internal_dependencies = [(js ''./x'', js ''a/x'')]\<rparr>)],
       source_units = [(js ''x.tsx'', js ''X''), (js ''y.tsx'', js ''Y'')]\<rparr>
      [js ''a/x'']
   \<and> resolveRegistryDependencyTree BreadthFirst
      \<lparr>entries = [(js ''a/x'', \<lparr>registry_namespace = js ''ui'', code_source_unit = js ''x.tsx'',
                                 internal_dependencies = [(js ''./y'', js ''a/y'')]\<rparr>)],
       source_units = [(js ''x.tsx'', js ''X'')]\<rparr>
      [js ''a/x'']
     = ([js ''a/x'', js ''a/y''], Inl (DependencyNotFound (js ''a/y'')))
   \<and> js ''a/y'' \<in> reachable
      \<lparr>entries = [(js ''a/x'', \<lparr>registry_namespace = js ''ui'', code_source_unit = js ''x.tsx'',
                                 internal_dependencies = [(js ''./y'', js ''a/y'')]\<rparr>)],
       source_units = [(js ''x.tsx'', js ''X'')]\<rparr>
      [js ''a/x'']
   \<and> fetch
      \<lparr>entries = [(js ''a/x'', \<lparr>registry_namespace = js ''ui'', code_source_unit = js ''x.tsx'',
                                 internal_dependencies = [(js ''./y'', js ''a/y'')]\<rparr>)],
       source_units = [(js ''x.tsx'', js ''X'')]\<rparr>
      (js ''a/y'') = None"
proof -
  define cyclic where "cyclic =
      \<lparr>entries = [(js ''a/x'', \<lparr>registry_namespace = js ''ui'', code_source_unit = js ''x.tsx'',
                                 internal_dependencies = [(js ''./y'', js ''a/y'')]\<rparr>),
                  (js ''a/y'', \<lparr>registry_namespace = js ''hook'', code_source_unit = js ''y.tsx'',
                                 internal_dependencies = [(js ''./x'', js ''a/x'')]\<rparr>)],
       source_units = [(js ''x.tsx'', js ''X''), (js ''y.tsx'', js ''Y'')]\<rparr>"
  define dangling where "dangling =
      \<lparr>entries = [(js ''a/x'', \<lparr>registry_namespace = js ''ui'', code_source_unit = js ''x.tsx'',
                                 internal_dependencies = [(js ''./y'', js ''a/y'')]\<rparr>)],
       source_units = [(js ''x.tsx'', js ''X'')]\<rparr>"
  define resolved where "resolved =
        [(js ''a/x'', \<lparr>sourceText = js ''X'', registryNamespace = js ''ui''\<rparr>),
         (js ''a/y'', \<lparr>sourceText = js ''Y'', registryNamespace = js ''hook''\<rparr>)]"
  define resolved' where "resolved' =
        [(js ''a/y'', \<lparr>sourceText = js ''Y'', registryNamespace = js ''hook''\<rparr>),
         (js ''a/x'', \<lparr>sourceText = js ''X'', registryNamespace = js ''ui''\<rparr>)]"
  note closure = resolver_transitive_closure[of DepthFirst cyclic "[js ''a/x'']"]
  have run: "resolveRegistryDependencyTree DepthFirst cyclic [js ''a/x'']
               = ([js ''a/x'', js ''a/y''], Inr resolved)"
    by (simp add: resolveRegistryDependencyTree_def cyclic_def resolved_def fetch_def
        fetchEntry_def fetchSourceText_def enqueue_def Object_values_def js_def)
  then have out: "snd (resolveRegistryDependencyTree DepthFirst cyclic [js ''a/x'']) = Inr resolved"
    by simp
  with closure
  have keys: "set (map fst resolved) = reachable cyclic [js ''a/x'']"
    and "length resolved = card (reachable cyclic [js ''a/x''])"
    by blast+
  then have reach: "reachable cyclic [js ''a/x''] = {js ''a/x'', js ''a/y''}"
    and count: "card (reachable cyclic [js ''a/x'']) = 2"
    by (simp_all add: resolved_def)
  have run': "resolveRegistryDependencyTree BreadthFirst cyclic [js ''a/y'', js ''a/x'', js ''a/y'']
               = ([js ''a/y'', js ''a/x''], Inr resolved')"
    by (simp add: resolveRegistryDependencyTree_def cyclic_def resolved'_def fetch_def
        fetchEntry_def fetchSourceText_def enqueue_def Object_values_def js_def)
  then have out': "snd (resolveRegistryDependencyTree BreadthFirst cyclic
                          [js ''a/y'', js ''a/x'', js ''a/y'']) = Inr resolved'"
    by simp
  have other_seeds: "reachable cyclic [js ''a/y'', js ''a/x'', js ''a/y'']
                       = reachable cyclic [js ''a/x'']"
  proof -
    from resolver_transitive_closure[of BreadthFirst cyclic "[js ''a/y'', js ''a/x'', js ''a/y'']"]
      out'
    have "set (map fst resolved') = reachable cyclic [js ''a/y'', js ''a/x'', js ''a/y'']"
      by blast
    with reach show ?thesis by (auto simp: resolved'_def)
  qed
  have same: "set (map fst resolved') = reachable cyclic [js ''a/x'']"
  proof -
    from resolver_transitive_closure[of BreadthFirst cyclic "[js ''a/y'', js ''a/x'', js ''a/y'']"]
      out'
    have "set (map fst resolved') = reachable cyclic [js ''a/y'', js ''a/x'', js ''a/y'']"
      by blast
    with other_seeds show ?thesis by simp
  qed
  have fail: "resolveRegistryDependencyTree BreadthFirst dangling [js ''a/x'']
                = ([js ''a/x'', js ''a/y''], Inl (DependencyNotFound (js ''a/y'')))"
    by (simp add: resolveRegistryDependencyTree_def dangling_def fetch_def
        fetchEntry_def fetchSourceText_def enqueue_def Object_values_def js_def)
  then have "snd (resolveRegistryDependencyTree BreadthFirst dangling [js ''a/x''])
               = Inl (DependencyNotFound (js ''a/y''))"
    by simp
  with resolver_transitive_closure[of BreadthFirst dangling "[js ''a/x'']"]
  have missing: "js ''a/y'' \<in> reachable dangling [js ''a/x'']"
    and unfetchable: "fetch dangling (js ''a/y'') = None"
    by blast+
  from run reach count run' same fail missing unfetchable show ?thesis
    unfolding cyclic_def dangling_def resolved_def resolved'_def by (intro conjI)
qed

section \<open>The registry route over the resolver\<close>

lemma registry_resolver_of_cases:
  obtains
    (failed) i where "i \<in> reachable store seeds" and "fetch store i = None"
      and "registry_resolver_of describe t store seeds
             = Inr \<lparr>sr_data = None, sr_error = Some (describe (DependencyNotFound i))\<rparr>"
  | (resolved) res :: "resolved_entry jsrecord"
      where "\<forall>i\<in>reachable store seeds. fetch store i \<noteq> None"
      and "registry_resolver_of describe t store seeds
             = Inr \<lparr>sr_data = Some (map (\<lambda>(i, r). (i, \<lparr>code = sourceText r,
                                                         registry = registryNamespace r\<rparr>)) res),
                    sr_error = None\<rparr>"
      and "distinct (map fst res)" and "set (map fst res) = reachable store seeds"
      and "\<And>i r. (i, r) \<in> set res \<Longrightarrow>
             \<exists>e. fetch store i = Some (e, sourceText r) \<and> registryNamespace r = registry_namespace e"
proof (cases "snd (resolveRegistryDependencyTree t store seeds)")
  case (Inl e)
  obtain i where e: "e = DependencyNotFound i" by (cases e)
  from Inl e resolver_invariant[of t store seeds]
  have "i \<in> reachable store seeds" and "fetch store i = None" by blast+
  moreover have "registry_resolver_of describe t store seeds
             = Inr \<lparr>sr_data = None, sr_error = Some (describe (DependencyNotFound i))\<rparr>"
    using Inl e by (simp add: registry_resolver_of_def)
  ultimately show ?thesis by (rule failed)
next
  case (Inr res)
  from Inr resolver_invariant[of t store seeds]
  have keys: "map fst res = fst (resolveRegistryDependencyTree t store seeds)"
    and dist: "distinct (fst (resolveRegistryDependencyTree t store seeds))"
    and reach: "set (fst (resolveRegistryDependencyTree t store seeds)) = reachable store seeds"
    and vals: "\<forall>i r. (i, r) \<in> set res \<longrightarrow>
              (\<exists>e. fetch store i = Some (e, sourceText r)
                   \<and> registryNamespace r = registry_namespace e)"
    by blast+
  have all: "\<forall>i\<in>reachable store seeds. fetch store i \<noteq> None"
    using resolver_succeeds_iff[of t store seeds] Inr by blast
  show ?thesis
  proof (rule resolved[of res])
    show "\<forall>i\<in>reachable store seeds. fetch store i \<noteq> None" by (rule all)
    show "registry_resolver_of describe t store seeds
             = Inr \<lparr>sr_data = Some (map (\<lambda>(i, r). (i, \<lparr>code = sourceText r,
                                                         registry = registryNamespace r\<rparr>)) res),
                    sr_error = None\<rparr>"
      using Inr by (simp add: registry_resolver_of_def)
    show "distinct (map fst res)" using keys dist by simp
    show "set (map fst res) = reachable store seeds" using keys reach by simp
    show "\<exists>e. fetch store i = Some (e, sourceText r) \<and> registryNamespace r = registry_namespace e"
      if "(i, r) \<in> set res" for i r
      using vals that by blast
  qed
qed


lemma GET_found_closure [consumes 3, case_names failed served]:
  fixes select_component :: component_query
  assumes q: "select_component component_slug username' = Inr q"
    "sr_error q = None" "sr_data q = Some component"
  obtains
    (failed) i where
      "i \<in> reachable store ((username (c_user component) @ js ''/'' @ component_slug)
                # c_direct_registry_dependencies component)"
      and "fetch store i = None"
      and "GET select_component (registry_resolver_of describe t store) username' component_slug
             = \<lparr>status = 500,
                body = ErrorBody
                  (case describe (DependencyNotFound i) of Error m \<Rightarrow> m
                   | NonError \<Rightarrow> js ''An unexpected error occurred'')\<rparr>"
  | (served) m where
      "\<forall>i\<in>reachable store ((username (c_user component) @ js ''/'' @ component_slug)
                # c_direct_registry_dependencies component).
          fetch store i \<noteq> None"
      and "GET select_component (registry_resolver_of describe t store) username' component_slug
             = \<lparr>status = 200, body = ManifestBody m\<rparr>"
      and "distinct (map path (files m))"
      and "set (map path (files m))
             = reachable store ((username (c_user component) @ js ''/'' @ component_slug)
                # c_direct_registry_dependencies component)"
      and "\<forall>f\<in>set (files m).
              \<exists>entry. fetch store (path f) = Some (entry, content f)
                \<and> file_type f = js ''registry:'' @ registry_namespace entry
                \<and> target f = []"
proof -
  let ?seeds = "((username (c_user component) @ js ''/'' @ component_slug)
                # c_direct_registry_dependencies component)"
  let ?resolver = "registry_resolver_of describe t store"
  show ?thesis
  proof (cases rule: registry_resolver_of_cases[of store ?seeds describe t])
    case (failed i)
    have "GET select_component ?resolver username' component_slug
             = \<lparr>status = 500,
                body = ErrorBody
                  (case describe (DependencyNotFound i) of Error m \<Rightarrow> m
                   | NonError \<Rightarrow> js ''An unexpected error occurred'')\<rparr>"
      by (rule GET_resolver_error[where select_component = select_component
        and component_slug = component_slug and username' = username'
        and resolver = ?resolver, OF q failed(3)]) simp
    with failed(1,2) show ?thesis by (rule that(1))
  next
    case (resolved res)
    let ?files = "map (\<lambda>(p, f). \<lparr>path = p, content = code f,
                                   file_type = js ''registry:'' @ registry f,
                                   target = []\<rparr>)
                    (map (\<lambda>(i, r). (i, \<lparr>code = sourceText r,
                                            registry = registryNamespace r\<rparr>)) res)"
    let ?m = "\<lparr>name = component_slug,
               response_type = js ''registry:'' @ c_registry component,
               dependencies = (if c_dependencies component = [] then None
                               else Some (map fst (c_dependencies component))),
               files = ?files\<rparr>"
    have get: "GET select_component ?resolver username' component_slug
                 = \<lparr>status = 200, body = ManifestBody ?m\<rparr>"
      by (rule GET_manifest[where select_component = select_component
        and component_slug = component_slug and username' = username'
        and resolver = ?resolver, OF q resolved(2)]) simp_all
    have paths: "map path (files ?m) = map fst res"
      by (simp add: comp_def case_prod_beta)
    have each: "\<forall>f\<in>set (files ?m).
              \<exists>entry. fetch store (path f) = Some (entry, content f)
                \<and> file_type f = js ''registry:'' @ registry_namespace entry
                \<and> target f = []"
    proof
      fix f assume "f \<in> set (files ?m)"
      then obtain i r where ir: "(i, r) \<in> set res"
        and f: "f = \<lparr>path = i, content = sourceText r,
                      file_type = js ''registry:'' @ registryNamespace r, target = []\<rparr>"
        by auto
      from resolved(5)[OF ir] f
      show "\<exists>entry. fetch store (path f) = Some (entry, content f)
                \<and> file_type f = js ''registry:'' @ registry_namespace entry
                \<and> target f = []"
        by auto
    qed
    show ?thesis
    proof (rule that(2)[of ?m])
      show "\<forall>i\<in>reachable store ?seeds. fetch store i \<noteq> None" by (rule resolved(1))
      show "GET select_component ?resolver username' component_slug
                 = \<lparr>status = 200, body = ManifestBody ?m\<rparr>" by (rule get)
      show "distinct (map path (files ?m))" by (simp only: paths resolved(3))
      show "set (map path (files ?m)) = reachable store ?seeds"
        by (simp only: paths resolved(4))
      show "\<forall>f\<in>set (files ?m).
              \<exists>entry. fetch store (path f) = Some (entry, content f)
                \<and> file_type f = js ''registry:'' @ registry_namespace entry
                \<and> target f = []" by (rule each)
    qed
  qed
qed

text \<open>
  C3 (as the code has it). The request gets one response. When the query for the root row
  throws, it is 500 with the message of the thrown error; when the query reports an error
  or returns no row, it is 404 "Component not found", whatever the error was. When the
  root row is found and some identifier reachable from the seeds (the root and its direct
  registry dependencies) is missing or unfetchable, the response is 500 with the message
  of the resolver's \<^verbatim>\<open>DependencyNotFound\<close> for such an identifier; when every reachable
  identifier can be fetched, the response is 200 with a manifest whose files are, without
  repetition, the reachable identifiers, each with the fetched text and the namespace of
  its entry. A response that carries a manifest therefore has status 200 and a file for
  every reachable identifier: a subset is never served.
\<close>

theorem GET_failure_or_whole_closure:
  fixes select_component :: component_query
  shows
  "(\<forall>e. select_component component_slug username' = Inl e \<longrightarrow>
        GET select_component (registry_resolver_of describe t store) username' component_slug
          = \<lparr>status = 500,
             body = ErrorBody (case e of Error m \<Rightarrow> m
                              | NonError \<Rightarrow> js ''An unexpected error occurred'')\<rparr>)
   \<and> (\<forall>q. select_component component_slug username' = Inr q
         \<and> (sr_error q \<noteq> None \<or> sr_data q = None) \<longrightarrow>
        GET select_component (registry_resolver_of describe t store) username' component_slug
          = \<lparr>status = 404, body = ErrorBody (js ''Component not found'')\<rparr>)
   \<and> (\<forall>q component.
        select_component component_slug username' = Inr q
        \<and> sr_error q = None \<and> sr_data q = Some component \<longrightarrow>
        ((\<exists>i\<in>reachable store
               ((username (c_user component) @ js ''/'' @ component_slug)
                # c_direct_registry_dependencies component).
            fetch store i = None) \<longrightarrow>
         (\<exists>i\<in>reachable store
               ((username (c_user component) @ js ''/'' @ component_slug)
                # c_direct_registry_dependencies component).
            fetch store i = None
            \<and> GET select_component (registry_resolver_of describe t store) username' component_slug
                = \<lparr>status = 500,
                   body = ErrorBody
                     (case describe (DependencyNotFound i) of Error m \<Rightarrow> m
                      | NonError \<Rightarrow> js ''An unexpected error occurred'')\<rparr>))
        \<and> ((\<forall>i\<in>reachable store
               ((username (c_user component) @ js ''/'' @ component_slug)
                # c_direct_registry_dependencies component).
            fetch store i \<noteq> None) \<longrightarrow>
         (\<exists>m. GET select_component (registry_resolver_of describe t store) username' component_slug
                = \<lparr>status = 200, body = ManifestBody m\<rparr>
              \<and> distinct (map path (files m))
              \<and> set (map path (files m))
                  = reachable store
                      ((username (c_user component) @ js ''/'' @ component_slug)
                # c_direct_registry_dependencies component)
              \<and> (\<forall>f\<in>set (files m).
                    \<exists>entry. fetch store (path f) = Some (entry, content f)
                      \<and> file_type f = js ''registry:'' @ registry_namespace entry
                      \<and> target f = []))))
   \<and> (\<forall>m. body (GET select_component (registry_resolver_of describe t store) username' component_slug)
            = ManifestBody m \<longrightarrow>
        status (GET select_component (registry_resolver_of describe t store) username' component_slug) = 200
        \<and> (\<exists>q component.
              select_component component_slug username' = Inr q
              \<and> sr_error q = None \<and> sr_data q = Some component
              \<and> set (map path (files m))
                  = reachable store
                      ((username (c_user component) @ js ''/'' @ component_slug)
                # c_direct_registry_dependencies component)
              \<and> (\<forall>i\<in>reachable store
                      ((username (c_user component) @ js ''/'' @ component_slug)
                # c_direct_registry_dependencies component).
                    fetch store i \<noteq> None)))"
proof (intro conjI)
  let ?resp = "GET select_component (registry_resolver_of describe t store) username' component_slug"
  show "\<forall>e. select_component component_slug username' = Inl e \<longrightarrow>
        GET select_component (registry_resolver_of describe t store) username' component_slug
          = \<lparr>status = 500,
             body = ErrorBody (case e of Error m \<Rightarrow> m
                              | NonError \<Rightarrow> js ''An unexpected error occurred'')\<rparr>"
    using GET_query_thrown[where select_component = select_component
        and component_slug = component_slug and username' = username'
        and resolver = "registry_resolver_of describe t store"]
    by blast
  show "\<forall>q. select_component component_slug username' = Inr q
         \<and> (sr_error q \<noteq> None \<or> sr_data q = None) \<longrightarrow>
        GET select_component (registry_resolver_of describe t store) username' component_slug
          = \<lparr>status = 404, body = ErrorBody (js ''Component not found'')\<rparr>"
    using GET_root_missing[where select_component = select_component
        and component_slug = component_slug and username' = username'
        and resolver = "registry_resolver_of describe t store"]
    by blast
  show "\<forall>q component.
        select_component component_slug username' = Inr q
        \<and> sr_error q = None \<and> sr_data q = Some component \<longrightarrow>
        ((\<exists>i\<in>reachable store
               ((username (c_user component) @ js ''/'' @ component_slug)
                # c_direct_registry_dependencies component).
            fetch store i = None) \<longrightarrow>
         (\<exists>i\<in>reachable store
               ((username (c_user component) @ js ''/'' @ component_slug)
                # c_direct_registry_dependencies component).
            fetch store i = None
            \<and> GET select_component (registry_resolver_of describe t store) username' component_slug
                = \<lparr>status = 500,
                   body = ErrorBody
                     (case describe (DependencyNotFound i) of Error m \<Rightarrow> m
                      | NonError \<Rightarrow> js ''An unexpected error occurred'')\<rparr>))
        \<and> ((\<forall>i\<in>reachable store
               ((username (c_user component) @ js ''/'' @ component_slug)
                # c_direct_registry_dependencies component).
            fetch store i \<noteq> None) \<longrightarrow>
         (\<exists>m. GET select_component (registry_resolver_of describe t store) username' component_slug
                = \<lparr>status = 200, body = ManifestBody m\<rparr>
              \<and> distinct (map path (files m))
              \<and> set (map path (files m))
                  = reachable store
                      ((username (c_user component) @ js ''/'' @ component_slug)
                # c_direct_registry_dependencies component)
              \<and> (\<forall>f\<in>set (files m).
                    \<exists>entry. fetch store (path f) = Some (entry, content f)
                      \<and> file_type f = js ''registry:'' @ registry_namespace entry
                      \<and> target f = [])))"
  proof (intro allI impI, elim conjE)
    fix q component
    assume q: "select_component component_slug username' = Inr q"
      "sr_error q = None" "sr_data q = Some component"
    let ?seeds = "((username (c_user component) @ js ''/'' @ component_slug)
                # c_direct_registry_dependencies component)"
    show "((\<exists>i\<in>reachable store ?seeds. fetch store i = None) \<longrightarrow>
         (\<exists>i\<in>reachable store ?seeds.
            fetch store i = None
            \<and> ?resp
                = \<lparr>status = 500,
                   body = ErrorBody
                     (case describe (DependencyNotFound i) of Error m \<Rightarrow> m
                      | NonError \<Rightarrow> js ''An unexpected error occurred'')\<rparr>))
        \<and> ((\<forall>i\<in>reachable store ?seeds. fetch store i \<noteq> None) \<longrightarrow>
         (\<exists>m. ?resp = \<lparr>status = 200, body = ManifestBody m\<rparr>
              \<and> distinct (map path (files m))
              \<and> set (map path (files m)) = reachable store ?seeds
              \<and> (\<forall>f\<in>set (files m).
                    \<exists>entry. fetch store (path f) = Some (entry, content f)
                      \<and> file_type f = js ''registry:'' @ registry_namespace entry
                      \<and> target f = [])))"
      using q
    proof (cases rule: GET_found_closure[where select_component = select_component
          and component_slug = component_slug and username' = username'
          and describe = describe and t = t and store = store])
      case (failed i)
      then show ?thesis by blast
    next
      case (served m)
      then show ?thesis by blast
    qed
  qed
  show "\<forall>m. body (GET select_component (registry_resolver_of describe t store) username' component_slug)
            = ManifestBody m \<longrightarrow>
        status (GET select_component (registry_resolver_of describe t store) username' component_slug) = 200
        \<and> (\<exists>q component.
              select_component component_slug username' = Inr q
              \<and> sr_error q = None \<and> sr_data q = Some component
              \<and> set (map path (files m))
                  = reachable store
                      ((username (c_user component) @ js ''/'' @ component_slug)
                # c_direct_registry_dependencies component)
              \<and> (\<forall>i\<in>reachable store
                      ((username (c_user component) @ js ''/'' @ component_slug)
                # c_direct_registry_dependencies component).
                    fetch store i \<noteq> None))"
  proof (intro allI impI)
    fix m assume m: "body ?resp = ManifestBody m"
    show "status ?resp = 200
        \<and> (\<exists>q component.
              select_component component_slug username' = Inr q
              \<and> sr_error q = None \<and> sr_data q = Some component
              \<and> set (map path (files m))
                  = reachable store
                      ((username (c_user component) @ js ''/'' @ component_slug)
                # c_direct_registry_dependencies component)
              \<and> (\<forall>i\<in>reachable store
                      ((username (c_user component) @ js ''/'' @ component_slug)
                # c_direct_registry_dependencies component).
                    fetch store i \<noteq> None))"
    proof (cases "select_component component_slug username'")
      case (Inl e)
      from GET_query_thrown[where select_component = select_component
        and component_slug = component_slug and username' = username'
        and resolver = "registry_resolver_of describe t store", OF Inl] m
      show ?thesis by simp
    next
      case (Inr q)
      show ?thesis
      proof (cases "sr_error q \<noteq> None \<or> sr_data q = None")
        case True
        from GET_root_missing[where select_component = select_component
        and component_slug = component_slug and username' = username'
        and resolver = "registry_resolver_of describe t store", OF Inr True] m
        show ?thesis by simp
      next
        case False
        then obtain component where q: "sr_error q = None" "sr_data q = Some component"
          by auto
        show ?thesis
          using Inr q
        proof (cases rule: GET_found_closure[where select_component = select_component
              and component_slug = component_slug and username' = username'
              and describe = describe and t = t and store = store])
          case (failed i)
          with m show ?thesis by simp
        next
          case (served m')
          with m have "m' = m" and "status ?resp = 200" by simp_all
          with served Inr q show ?thesis by blast
        qed
      qed
    qed
  qed
qed


theorem GET_failure_or_whole_closure_witness:
  "GET (\<lambda>slug user. Inl (Error (js ''socket hang up'')))
       (registry_resolver_of (\<lambda>e. case e of DependencyNotFound i \<Rightarrow>
                                 Error (js ''Dependency not found: '' @ i)) BreadthFirst
          \<lparr>entries = [(js ''alice/button'',
                       \<lparr>registry_namespace = js ''ui'', code_source_unit = js ''button.tsx'',
                        internal_dependencies = [(js ''./icon'', js ''alice/icon'')]\<rparr>)],
           source_units = [(js ''button.tsx'', js ''B'')]\<rparr>)
       (js ''alice'') (js ''button'')
     = \<lparr>status = 500, body = ErrorBody (js ''socket hang up'')\<rparr>
   \<and> GET (\<lambda>slug user. Inr \<lparr>sr_data = None, sr_error = Some NonError\<rparr>)
       (registry_resolver_of (\<lambda>e. case e of DependencyNotFound i \<Rightarrow>
                                 Error (js ''Dependency not found: '' @ i)) BreadthFirst
          \<lparr>entries = [(js ''alice/button'',
                       \<lparr>registry_namespace = js ''ui'', code_source_unit = js ''button.tsx'',
                        internal_dependencies = [(js ''./icon'', js ''alice/icon'')]\<rparr>)],
           source_units = [(js ''button.tsx'', js ''B'')]\<rparr>)
       (js ''alice'') (js ''button'')
     = \<lparr>status = 404, body = ErrorBody (js ''Component not found'')\<rparr>
   \<and> GET (\<lambda>slug user. Inr \<lparr>sr_data = Some \<lparr>c_dependencies = [],
                        c_direct_registry_dependencies = [],
                        c_registry = js ''ui'', c_user = \<lparr>username = js ''alice''\<rparr>\<rparr>,
                      sr_error = None\<rparr>)
       (registry_resolver_of (\<lambda>e. case e of DependencyNotFound i \<Rightarrow>
                                 Error (js ''Dependency not found: '' @ i)) BreadthFirst
          \<lparr>entries = [(js ''alice/button'',
                       \<lparr>registry_namespace = js ''ui'', code_source_unit = js ''button.tsx'',
                        internal_dependencies = [(js ''./icon'', js ''alice/icon'')]\<rparr>)],
           source_units = [(js ''button.tsx'', js ''B'')]\<rparr>)
       (js ''alice'') (js ''button'')
     = \<lparr>status = 500, body = ErrorBody (js ''Dependency not found: alice/icon'')\<rparr>
   \<and> (\<exists>m. GET (\<lambda>slug user. Inr \<lparr>sr_data = Some \<lparr>c_dependencies = [],
                        c_direct_registry_dependencies = [],
                        c_registry = js ''ui'', c_user = \<lparr>username = js ''alice''\<rparr>\<rparr>,
                      sr_error = None\<rparr>)
       (registry_resolver_of (\<lambda>e. case e of DependencyNotFound i \<Rightarrow>
                                 Error (js ''Dependency not found: '' @ i)) BreadthFirst
          \<lparr>entries = [(js ''alice/button'',
                       \<lparr>registry_namespace = js ''ui'', code_source_unit = js ''button.tsx'',
                        internal_dependencies = [(js ''./icon'', js ''alice/icon'')]\<rparr>),
                      (js ''alice/icon'',
                       \<lparr>registry_namespace = js ''ui'', code_source_unit = js ''icon.tsx'',
                        internal_dependencies = []\<rparr>)],
           source_units = [(js ''button.tsx'', js ''B''), (js ''icon.tsx'', js ''I'')]\<rparr>)
       (js ''alice'') (js ''button'')
        = \<lparr>status = 200, body = ManifestBody m\<rparr>
      \<and> set (map path (files m)) = {js ''alice/button'', js ''alice/icon''})"
proof -
  define describe where "describe = (\<lambda>e. case e of DependencyNotFound i \<Rightarrow>
                                 Error (js ''Dependency not found: '' @ i))"
  define dangling where "dangling =
          \<lparr>entries = [(js ''alice/button'',
                       \<lparr>registry_namespace = js ''ui'', code_source_unit = js ''button.tsx'',
                        internal_dependencies = [(js ''./icon'', js ''alice/icon'')]\<rparr>)],
           source_units = [(js ''button.tsx'', js ''B'')]\<rparr>"
  define complete where "complete =
          \<lparr>entries = [(js ''alice/button'',
                       \<lparr>registry_namespace = js ''ui'', code_source_unit = js ''button.tsx'',
                        internal_dependencies = [(js ''./icon'', js ''alice/icon'')]\<rparr>),
                      (js ''alice/icon'',
                       \<lparr>registry_namespace = js ''ui'', code_source_unit = js ''icon.tsx'',
                        internal_dependencies = []\<rparr>)],
           source_units = [(js ''button.tsx'', js ''B''), (js ''icon.tsx'', js ''I'')]\<rparr>"
  define row where "row = \<lparr>c_dependencies = [],
                        c_direct_registry_dependencies = [],
                        c_registry = js ''ui'', c_user = \<lparr>username = js ''alice''\<rparr>\<rparr>"
  define thrown :: component_query
    where "thrown = (\<lambda>slug user. Inl (Error (js ''socket hang up'')))"
  define errored :: component_query
    where "errored = (\<lambda>slug user. Inr \<lparr>sr_data = None, sr_error = Some NonError\<rparr>)"
  define found :: component_query
    where "found = (\<lambda>slug user. Inr \<lparr>sr_data = Some row, sr_error = None\<rparr>)"
  let ?seeds = "(username (c_user row) @ js ''/'' @ js ''button'')
                  # c_direct_registry_dependencies row"
  have seeds: "?seeds = [js ''alice/button'']" by (simp add: row_def js_def)
  have p1: "GET thrown (registry_resolver_of describe BreadthFirst dangling)
              (js ''alice'') (js ''button'')
            = \<lparr>status = 500, body = ErrorBody (js ''socket hang up'')\<rparr>"
    using GET_failure_or_whole_closure[of thrown "js ''button''" "js ''alice''" describe
        BreadthFirst dangling]
    by (simp add: thrown_def)
  have p2: "GET errored (registry_resolver_of describe BreadthFirst dangling)
              (js ''alice'') (js ''button'')
            = \<lparr>status = 404, body = ErrorBody (js ''Component not found'')\<rparr>"
    using GET_failure_or_whole_closure[of errored "js ''button''" "js ''alice''" describe
        BreadthFirst dangling]
    by (simp add: errored_def)
  have q: "found (js ''button'') (js ''alice'') = Inr \<lparr>sr_data = Some row, sr_error = None\<rparr>
           \<and> sr_error \<lparr>sr_data = Some row, sr_error = None\<rparr> = None
           \<and> sr_data \<lparr>sr_data = Some row, sr_error = None\<rparr> = Some row"
    by (simp add: found_def)
  have button: "js ''alice/button'' \<in> reachable dangling ?seeds"
    by (rule reachable.seed) (simp add: seeds)
  have "fetch dangling (js ''alice/button'')
          = Some (\<lparr>registry_namespace = js ''ui'', code_source_unit = js ''button.tsx'',
                   internal_dependencies = [(js ''./icon'', js ''alice/icon'')]\<rparr>, js ''B'')"
    by (simp add: dangling_def fetch_def fetchEntry_def fetchSourceText_def)
  from reachable.dependency[OF button this]
  have icon: "js ''alice/icon'' \<in> reachable dangling ?seeds"
    by (simp add: Object_values_def)
  have no_icon: "fetch dangling (js ''alice/icon'') = None"
    by (simp add: dangling_def fetch_def fetchEntry_def js_def)
  have only_icon: "i = js ''alice/icon''"
    if "i \<in> reachable dangling ?seeds" "fetch dangling i = None" for i
  proof -
    have "reachable dangling ?seeds \<subseteq> {js ''alice/button'', js ''alice/icon''}"
      by (rule closed_covers_reachable)
         (auto simp: seeds dangling_def fetch_def fetchEntry_def fetchSourceText_def
            Object_values_def split: if_splits option.splits)
    with that(1) have "i = js ''alice/button'' \<or> i = js ''alice/icon''" by blast
    moreover have "fetch dangling (js ''alice/button'') \<noteq> None"
      by (simp add: dangling_def fetch_def fetchEntry_def fetchSourceText_def)
    ultimately show ?thesis using that(2) by auto
  qed
  have "\<exists>i\<in>reachable dangling ?seeds. fetch dangling i = None"
    using icon no_icon by blast
  with GET_failure_or_whole_closure[of found "js ''button''" "js ''alice''" describe
        BreadthFirst dangling] q
  have "\<exists>i\<in>reachable dangling ?seeds.
            fetch dangling i = None
            \<and> GET found (registry_resolver_of describe BreadthFirst dangling)
                 (js ''alice'') (js ''button'')
                = \<lparr>status = 500,
                   body = ErrorBody
                     (case describe (DependencyNotFound i) of Error m \<Rightarrow> m
                      | NonError \<Rightarrow> js ''An unexpected error occurred'')\<rparr>"
    by blast
  then obtain i where "i \<in> reachable dangling ?seeds" "fetch dangling i = None"
    and resp: "GET found (registry_resolver_of describe BreadthFirst dangling)
                 (js ''alice'') (js ''button'')
                = \<lparr>status = 500,
                   body = ErrorBody
                     (case describe (DependencyNotFound i) of Error m \<Rightarrow> m
                      | NonError \<Rightarrow> js ''An unexpected error occurred'')\<rparr>"
    by blast
  then have "i = js ''alice/icon''" using only_icon by blast
  with resp have p3: "GET found (registry_resolver_of describe BreadthFirst dangling)
                 (js ''alice'') (js ''button'')
                = \<lparr>status = 500, body = ErrorBody (js ''Dependency not found: alice/icon'')\<rparr>"
    by (simp add: describe_def js_def)
  have reach: "reachable complete ?seeds = {js ''alice/button'', js ''alice/icon''}"
  proof
    show "reachable complete ?seeds \<subseteq> {js ''alice/button'', js ''alice/icon''}"
      by (rule closed_covers_reachable)
         (auto simp: seeds complete_def fetch_def fetchEntry_def fetchSourceText_def
            Object_values_def split: if_splits option.splits)
    have b: "js ''alice/button'' \<in> reachable complete ?seeds"
      by (rule reachable.seed) (simp add: seeds)
    have "fetch complete (js ''alice/button'')
          = Some (\<lparr>registry_namespace = js ''ui'', code_source_unit = js ''button.tsx'',
                   internal_dependencies = [(js ''./icon'', js ''alice/icon'')]\<rparr>, js ''B'')"
      by (simp add: complete_def fetch_def fetchEntry_def fetchSourceText_def)
    from reachable.dependency[OF b this]
    have "js ''alice/icon'' \<in> reachable complete ?seeds"
      by (simp add: Object_values_def)
    with b show "{js ''alice/button'', js ''alice/icon''} \<subseteq> reachable complete ?seeds"
      by simp
  qed
  have "\<forall>i\<in>reachable complete ?seeds. fetch complete i \<noteq> None"
    unfolding reach
    by (simp add: complete_def fetch_def fetchEntry_def fetchSourceText_def js_def)
  with GET_failure_or_whole_closure[of found "js ''button''" "js ''alice''" describe
        BreadthFirst complete] q
  have "\<exists>m. GET found (registry_resolver_of describe BreadthFirst complete)
                 (js ''alice'') (js ''button'')
                = \<lparr>status = 200, body = ManifestBody m\<rparr>
              \<and> distinct (map path (files m))
              \<and> set (map path (files m)) = reachable complete ?seeds
              \<and> (\<forall>f\<in>set (files m).
                    \<exists>entry. fetch complete (path f) = Some (entry, content f)
                      \<and> file_type f = js ''registry:'' @ registry_namespace entry
                      \<and> target f = [])"
    by blast
  then have p4: "\<exists>m. GET found (registry_resolver_of describe BreadthFirst complete)
                 (js ''alice'') (js ''button'')
                = \<lparr>status = 200, body = ManifestBody m\<rparr>
              \<and> set (map path (files m)) = {js ''alice/button'', js ''alice/icon''}"
    unfolding reach by blast
  from p1 p2 p3 p4 show ?thesis
    unfolding describe_def dangling_def complete_def row_def thrown_def errored_def found_def
    by (intro conjI)
qed

text \<open>
  The claim C3 as stated fails in its status code. The root entry \<^verbatim>\<open>alice/button\<close> is in the
  backing store and its dependency \<^verbatim>\<open>alice/icon\<close> is missing; the query for the root row
  reports an error that is not a not-found (the connection was refused, and no row came
  back). The claim asks for 500; the route answers 404 "Component not found".
\<close>

theorem GET_root_query_error_answers_404:
  "fetch \<lparr>entries = [(js ''alice/button'',
                       \<lparr>registry_namespace = js ''ui'', code_source_unit = js ''button.tsx'',
                        internal_dependencies = [(js ''./icon'', js ''alice/icon'')]\<rparr>)],
           source_units = [(js ''button.tsx'', js ''B'')]\<rparr> (js ''alice/button'')
     = Some (\<lparr>registry_namespace = js ''ui'', code_source_unit = js ''button.tsx'',
              internal_dependencies = [(js ''./icon'', js ''alice/icon'')]\<rparr>, js ''B'')
   \<and> js ''alice/icon''
       \<in> reachable \<lparr>entries = [(js ''alice/button'',
                       \<lparr>registry_namespace = js ''ui'', code_source_unit = js ''button.tsx'',
                        internal_dependencies = [(js ''./icon'', js ''alice/icon'')]\<rparr>)],
           source_units = [(js ''button.tsx'', js ''B'')]\<rparr> [js ''alice/button'']
   \<and> fetch \<lparr>entries = [(js ''alice/button'',
                       \<lparr>registry_namespace = js ''ui'', code_source_unit = js ''button.tsx'',
                        internal_dependencies = [(js ''./icon'', js ''alice/icon'')]\<rparr>)],
           source_units = [(js ''button.tsx'', js ''B'')]\<rparr> (js ''alice/icon'') = None
   \<and> GET (\<lambda>slug user. Inr \<lparr>sr_data = None,
                               sr_error = Some (Error (js ''connection refused''))\<rparr>)
       (registry_resolver_of (\<lambda>e. case e of DependencyNotFound i \<Rightarrow>
                                 Error (js ''Dependency not found: '' @ i)) BreadthFirst
          \<lparr>entries = [(js ''alice/button'',
                       \<lparr>registry_namespace = js ''ui'', code_source_unit = js ''button.tsx'',
                        internal_dependencies = [(js ''./icon'', js ''alice/icon'')]\<rparr>)],
           source_units = [(js ''button.tsx'', js ''B'')]\<rparr>)
       (js ''alice'') (js ''button'')
     = \<lparr>status = 404, body = ErrorBody (js ''Component not found'')\<rparr>"
proof -
  define dangling where "dangling =
          \<lparr>entries = [(js ''alice/button'',
                       \<lparr>registry_namespace = js ''ui'', code_source_unit = js ''button.tsx'',
                        internal_dependencies = [(js ''./icon'', js ''alice/icon'')]\<rparr>)],
           source_units = [(js ''button.tsx'', js ''B'')]\<rparr>"
  have root: "fetch dangling (js ''alice/button'')
          = Some (\<lparr>registry_namespace = js ''ui'', code_source_unit = js ''button.tsx'',
                   internal_dependencies = [(js ''./icon'', js ''alice/icon'')]\<rparr>, js ''B'')"
    by (simp add: dangling_def fetch_def fetchEntry_def fetchSourceText_def)
  have "js ''alice/button'' \<in> reachable dangling [js ''alice/button'']"
    by (rule reachable.seed) simp
  from reachable.dependency[OF this root]
  have icon: "js ''alice/icon'' \<in> reachable dangling [js ''alice/button'']"
    by (simp add: Object_values_def)
  have no_icon: "fetch dangling (js ''alice/icon'') = None"
    by (simp add: dangling_def fetch_def fetchEntry_def js_def)
  have resp: "GET (\<lambda>slug user. Inr \<lparr>sr_data = None,
                               sr_error = Some (Error (js ''connection refused''))\<rparr>)
       (registry_resolver_of (\<lambda>e. case e of DependencyNotFound i \<Rightarrow>
                                 Error (js ''Dependency not found: '' @ i)) BreadthFirst
          dangling)
       (js ''alice'') (js ''button'')
     = \<lparr>status = 404, body = ErrorBody (js ''Component not found'')\<rparr>"
    by (simp add: GET_def GET_try_def NextResponse_json_def)
  from root icon no_icon resp show ?thesis
    unfolding dangling_def by (intro conjI)
qed

section \<open>Properties of the Dependency Classifier\<close>

lemma map_of_record_package:
  "map_of (record_package m p v)
     = (map_of m)(p \<mapsto> (case map_of m p of
                            None \<Rightarrow> v
                          | Some seen \<Rightarrow> if seen = latest_sentinel \<and> v \<noteq> latest_sentinel
                                         then v else seen))"
proof (cases "map_of m p")
  case None
  then show ?thesis
    by (auto simp: record_package_def map_add_def fun_eq_iff split: option.splits)
next
  case (Some seen)
  then show ?thesis
    by (auto simp: record_package_def update_conv' fun_eq_iff)
qed

lemma keys_record_package: "fst ` set (record_package m p v) = insert p (fst ` set m)"
proof -
  have "dom (map_of (record_package m p v)) = insert p (dom (map_of m))"
    by (simp add: map_of_record_package)
  then show ?thesis by (simp add: dom_map_of_conv_image_fst)
qed

lemma distinct_record_package:
  "distinct (map fst m) \<Longrightarrow> distinct (map fst (record_package m p v))"
  by (auto simp: record_package_def distinct_update map_of_eq_None_iff split: option.splits)

lemma map_of_record_local:
  "map_of (record_local m p) = (map_of m)(p \<mapsto> (case map_of m p of None \<Rightarrow> [] | Some s \<Rightarrow> s))"
proof (cases "map_of m p")
  case None
  then show ?thesis
    by (auto simp: record_local_def map_add_def fun_eq_iff split: option.splits)
next
  case (Some seen)
  then show ?thesis
    by (auto simp: record_local_def fun_eq_iff)
qed

lemma keys_record_local: "fst ` set (record_local m p) = insert p (fst ` set m)"
proof -
  have "dom (map_of (record_local m p)) = insert p (dom (map_of m))"
    by (simp add: map_of_record_local)
  then show ?thesis by (simp add: dom_map_of_conv_image_fst)
qed

lemma distinct_record_local:
  "distinct (map fst m) \<Longrightarrow> distinct (map fst (record_local m p))"
  by (auto simp: record_local_def map_of_eq_None_iff split: option.splits)

lemma keys_external_fold:
  "fst ` set (foldl (\<lambda>m s. if kind (import_fact R s) = Package
                               then record_package m (rawPath (import_fact R s))
                                      (best_known_version s)
                               else m) m statements)
     = fst ` set m \<union> {p \<in> module_path ` set statements. path_kind R p = Package}"
  by (induction statements arbitrary: m)
     (auto simp: import_fact_def keys_record_package)

lemma distinct_external_fold:
  "distinct (map fst m) \<Longrightarrow>
   distinct (map fst (foldl (\<lambda>m s. if kind (import_fact R s) = Package
                               then record_package m (rawPath (import_fact R s))
                                      (best_known_version s)
                               else m) m statements))"
  by (induction statements arbitrary: m) (auto simp: distinct_record_package)

lemma keys_internal_fold:
  "fst ` set (foldl (\<lambda>m s. if kind (import_fact R s) = Local
                               then record_local m (rawPath (import_fact R s))
                               else m) m statements)
     = fst ` set m \<union> {p \<in> module_path ` set statements. path_kind R p = Local}"
  by (induction statements arbitrary: m)
     (auto simp: import_fact_def keys_record_local)

lemma distinct_internal_fold:
  "distinct (map fst m) \<Longrightarrow>
   distinct (map fst (foldl (\<lambda>m s. if kind (import_fact R s) = Local
                               then record_local m (rawPath (import_fact R s))
                               else m) m statements))"
  by (induction statements arbitrary: m) (auto simp: distinct_record_local)

lemma value_internal_fold:
  "map_of (foldl (\<lambda>m s. if kind (import_fact R s) = Local
                            then record_local m (rawPath (import_fact R s))
                            else m) m statements) p
     = (case map_of m p of
          Some slug \<Rightarrow> Some slug
        | None \<Rightarrow> if p \<in> module_path ` set statements \<and> path_kind R p = Local
                  then Some [] else None)"
proof (induction statements arbitrary: m)
  case Nil
  then show ?case by (simp split: option.splits)
next
  case (Cons s statements)
  show ?case
  proof (cases "path_kind R (module_path s) = Local")
    case False
    then have step: "(if kind (import_fact R s) = Local
                        then record_local m (rawPath (import_fact R s)) else m) = m"
      by (simp add: import_fact_def)
    from False show ?thesis
      unfolding foldl_Cons step Cons.IH by (auto split: option.splits)
  next
    case True
    then have step: "(if kind (import_fact R s) = Local
                        then record_local m (rawPath (import_fact R s)) else m)
                     = record_local m (module_path s)"
      by (simp add: import_fact_def)
    from True show ?thesis
      unfolding foldl_Cons step Cons.IH
      by (cases "map_of m p"; cases "module_path s = p")
         (auto simp: map_of_record_local split: option.splits)
  qed
qed

lemma value_external_fold:
  assumes "path_kind R p = Package"
  shows "map_of (foldl (\<lambda>m s. if kind (import_fact R s) = Package
                               then record_package m (rawPath (import_fact R s))
                                      (best_known_version s)
                               else m) m statements) p
     = (case map_of m p of
          Some seen \<Rightarrow>
            Some (if seen \<noteq> latest_sentinel then seen
                  else (case find (\<lambda>s. module_path s = p
                                        \<and> best_known_version s \<noteq> latest_sentinel) statements of
                          None \<Rightarrow> latest_sentinel
                        | Some s \<Rightarrow> best_known_version s))
        | None \<Rightarrow>
            if p \<in> module_path ` set statements
            then Some (case find (\<lambda>s. module_path s = p
                                       \<and> best_known_version s \<noteq> latest_sentinel) statements of
                         None \<Rightarrow> latest_sentinel
                       | Some s \<Rightarrow> best_known_version s)
            else None)"
proof (induction statements arbitrary: m)
  case Nil
  then show ?case by (simp split: option.splits)
next
  case (Cons s statements)
  show ?case
  proof (cases "module_path s = p")
    case False
    let ?m = "if kind (import_fact R s) = Package
              then record_package m (rawPath (import_fact R s)) (best_known_version s)
              else m"
    from False have same: "map_of ?m p = map_of m p"
      by (simp add: import_fact_def map_of_record_package)
    from False show ?thesis
      unfolding foldl_Cons Cons.IH same by (auto split: option.splits)
  next
    case True
    with assms have step: "(if kind (import_fact R s) = Package
                               then record_package m (rawPath (import_fact R s))
                                      (best_known_version s)
                               else m) = record_package m p (best_known_version s)"
      by (simp add: import_fact_def)
    show ?thesis
    proof (cases "map_of m p")
      case None
      then have "map_of (record_package m p (best_known_version s)) p
                   = Some (best_known_version s)"
        by (simp add: map_of_record_package)
      with True None show ?thesis
        unfolding foldl_Cons step Cons.IH by simp
    next
      case (Some seen)
      then have "map_of (record_package m p (best_known_version s)) p
                   = Some (if seen = latest_sentinel \<and> best_known_version s \<noteq> latest_sentinel
                           then best_known_version s else seen)"
        by (simp add: map_of_record_package)
      with True Some show ?thesis
        unfolding foldl_Cons step Cons.IH by simp
    qed
  qed
qed

lemma keys_external:
  "fst ` set (external_dependencies_of R statements)
     = {p \<in> module_path ` set statements. path_kind R p = Package}"
  unfolding external_dependencies_of_def keys_external_fold by simp

lemma keys_internal:
  "fst ` set (internal_dependencies_of R statements demo_statements)
     = {p \<in> module_path ` set (statements @ demo_statements). path_kind R p = Local}"
  unfolding internal_dependencies_of_def keys_internal_fold by simp

lemma value_internal:
  "map_of (internal_dependencies_of R statements demo_statements) p
     = (if p \<in> module_path ` set (statements @ demo_statements) \<and> path_kind R p = Local
        then Some [] else None)"
  unfolding internal_dependencies_of_def value_internal_fold by simp

lemma value_external:
  assumes "path_kind R p = Package" and "p \<in> module_path ` set statements"
  shows "map_of (external_dependencies_of R statements) p
     = Some (case find (\<lambda>s. module_path s = p
                             \<and> best_known_version s \<noteq> latest_sentinel) statements of
               None \<Rightarrow> latest_sentinel
             | Some s \<Rightarrow> best_known_version s)"
  unfolding external_dependencies_of_def value_external_fold[OF assms(1)]
  using assms(2) by simp

lemma relative_is_local:
  "starts_with (js ''./'') p \<or> starts_with (js ''../'') p \<Longrightarrow> path_kind R p = Local"
  by (auto simp: path_kind_def)

text \<open>
  C8. For the import statements of a component and of its demo: every import path of the
  component is a key of exactly one of the component's external map and the internal map,
  every import path of the demo is a key of exactly one of the demo's external map and
  the internal map, no path is a key of an external and of the internal map, and the
  maps hold no other keys. A path that starts with \<^verbatim>\<open>./\<close> or \<^verbatim>\<open>../\<close> is an internal key with
  the empty value. A path that is not local is an external key whose version is the first
  known version other than \<^verbatim>\<open>latest\<close> among its import statements, and \<^verbatim>\<open>latest\<close> when
  none of them has one. When
  the resolution table names no further local path, every path that does not start with
  \<^verbatim>\<open>./\<close> or \<^verbatim>\<open>../\<close> is external.
\<close>

theorem classification_is_partition:
  "(\<forall>p\<in>module_path ` set statements.
        (p \<in> fst ` set (external_dependencies_of R statements))
          \<noteq> (p \<in> fst ` set (internal_dependencies_of R statements demo_statements)))
   \<and> (\<forall>p\<in>module_path ` set demo_statements.
        (p \<in> fst ` set (external_dependencies_of R demo_statements))
          \<noteq> (p \<in> fst ` set (internal_dependencies_of R statements demo_statements)))
   \<and> (fst ` set (external_dependencies_of R statements)
        \<union> fst ` set (external_dependencies_of R demo_statements))
       \<inter> fst ` set (internal_dependencies_of R statements demo_statements) = {}
   \<and> fst ` set (external_dependencies_of R statements)
       \<union> fst ` set (external_dependencies_of R demo_statements)
       \<union> fst ` set (internal_dependencies_of R statements demo_statements)
       = module_path ` set statements \<union> module_path ` set demo_statements
   \<and> distinct (map fst (external_dependencies_of R statements))
   \<and> distinct (map fst (internal_dependencies_of R statements demo_statements))
   \<and> (\<forall>p\<in>module_path ` set statements \<union> module_path ` set demo_statements.
        starts_with (js ''./'') p \<or> starts_with (js ''../'') p
        \<longrightarrow> map_of (internal_dependencies_of R statements demo_statements) p = Some [])
   \<and> (\<forall>p\<in>module_path ` set statements.
        path_kind R p = Package
        \<longrightarrow> map_of (external_dependencies_of R statements) p
            = Some (case find (\<lambda>s. module_path s = p \<and> known_version s \<noteq> None
                                    \<and> known_version s \<noteq> Some (js ''latest'')) statements of
                      None \<Rightarrow> js ''latest''
                    | Some s \<Rightarrow> the (known_version s)))
   \<and> ((\<forall>p. \<not> R p) \<longrightarrow>
        (\<forall>p\<in>module_path ` set statements.
           \<not> starts_with (js ''./'') p \<and> \<not> starts_with (js ''../'') p
           \<longrightarrow> p \<in> fst ` set (external_dependencies_of R statements)
               \<and> ((\<forall>s\<in>set statements. module_path s = p \<longrightarrow> known_version s = None)
                    \<longrightarrow> map_of (external_dependencies_of R statements) p
                          = Some (js ''latest''))))"
proof -
  have kinds: "path_kind R p = Package \<longleftrightarrow> path_kind R p \<noteq> Local" for p
    by (cases "path_kind R p") simp_all
  have find_eq: "(case find (\<lambda>s. module_path s = p
                             \<and> best_known_version s \<noteq> latest_sentinel) statements of
               None \<Rightarrow> latest_sentinel
             | Some s \<Rightarrow> best_known_version s)
         = (case find (\<lambda>s. module_path s = p \<and> known_version s \<noteq> None
                                    \<and> known_version s \<noteq> Some (js ''latest'')) statements of
                      None \<Rightarrow> js ''latest''
                    | Some s \<Rightarrow> the (known_version s))" for p
  proof -
    have same: "(\<lambda>s. module_path s = p \<and> best_known_version s \<noteq> latest_sentinel)
                = (\<lambda>s. module_path s = p \<and> known_version s \<noteq> None
                                    \<and> known_version s \<noteq> Some (js ''latest''))"
      by (auto simp: best_known_version_def latest_sentinel_def fun_eq_iff split: option.splits)
    have "(case find (\<lambda>s. module_path s = p \<and> known_version s \<noteq> None
                                    \<and> known_version s \<noteq> Some (js ''latest'')) statements of
               None \<Rightarrow> latest_sentinel
             | Some s \<Rightarrow> best_known_version s)
         = (case find (\<lambda>s. module_path s = p \<and> known_version s \<noteq> None
                                    \<and> known_version s \<noteq> Some (js ''latest'')) statements of
                      None \<Rightarrow> js ''latest''
                    | Some s \<Rightarrow> the (known_version s))"
    proof (cases "find (\<lambda>s. module_path s = p \<and> known_version s \<noteq> None
                                    \<and> known_version s \<noteq> Some (js ''latest'')) statements")
      case None
      then show ?thesis by (simp add: latest_sentinel_def)
    next
      case (Some s)
      then have "known_version s \<noteq> None" unfolding find_Some_iff by blast
      with Some show ?thesis by (auto simp: best_known_version_def)
    qed
    then show ?thesis by (simp only: same)
  qed
  have p1: "\<forall>p\<in>module_path ` set statements.
        (p \<in> fst ` set (external_dependencies_of R statements))
          \<noteq> (p \<in> fst ` set (internal_dependencies_of R statements demo_statements))"
    unfolding keys_external keys_internal using kinds by auto
  have p2: "\<forall>p\<in>module_path ` set demo_statements.
        (p \<in> fst ` set (external_dependencies_of R demo_statements))
          \<noteq> (p \<in> fst ` set (internal_dependencies_of R statements demo_statements))"
    unfolding keys_external keys_internal using kinds by auto
  have p3: "(fst ` set (external_dependencies_of R statements)
        \<union> fst ` set (external_dependencies_of R demo_statements))
       \<inter> fst ` set (internal_dependencies_of R statements demo_statements) = {}"
    unfolding keys_external keys_internal by auto
  have p4: "fst ` set (external_dependencies_of R statements)
       \<union> fst ` set (external_dependencies_of R demo_statements)
       \<union> fst ` set (internal_dependencies_of R statements demo_statements)
       = module_path ` set statements \<union> module_path ` set demo_statements"
    unfolding keys_external keys_internal using kinds by auto
  have p5: "distinct (map fst (external_dependencies_of R statements))"
    unfolding external_dependencies_of_def by (rule distinct_external_fold) simp
  have p6: "distinct (map fst (internal_dependencies_of R statements demo_statements))"
    unfolding internal_dependencies_of_def by (rule distinct_internal_fold) simp
  have p7: "\<forall>p\<in>module_path ` set statements \<union> module_path ` set demo_statements.
        starts_with (js ''./'') p \<or> starts_with (js ''../'') p
        \<longrightarrow> map_of (internal_dependencies_of R statements demo_statements) p = Some []"
    unfolding value_internal using relative_is_local[of _ R] by auto
  have p8: "\<forall>p\<in>module_path ` set statements.
        path_kind R p = Package
        \<longrightarrow> map_of (external_dependencies_of R statements) p
            = Some (case find (\<lambda>s. module_path s = p \<and> known_version s \<noteq> None
                                    \<and> known_version s \<noteq> Some (js ''latest'')) statements of
                      None \<Rightarrow> js ''latest''
                    | Some s \<Rightarrow> the (known_version s))"
    using value_external[of R _ statements] find_eq by simp
  have p9: "p \<in> fst ` set (external_dependencies_of R statements)
               \<and> ((\<forall>s\<in>set statements. module_path s = p \<longrightarrow> known_version s = None)
                    \<longrightarrow> map_of (external_dependencies_of R statements) p
                          = Some (js ''latest''))"
    if "\<forall>p. \<not> R p" and p: "p \<in> module_path ` set statements"
      and rel: "\<not> starts_with (js ''./'') p \<and> \<not> starts_with (js ''../'') p" for p
  proof -
    from that have pk: "path_kind R p = Package" by (simp add: path_kind_def)
    with p have key: "p \<in> fst ` set (external_dependencies_of R statements)"
      unfolding keys_external by simp
    have "map_of (external_dependencies_of R statements) p = Some (js ''latest'')"
      if none: "\<forall>s\<in>set statements. module_path s = p \<longrightarrow> known_version s = None"
    proof -
      have "find (\<lambda>s. module_path s = p \<and> known_version s \<noteq> None
                                    \<and> known_version s \<noteq> Some (js ''latest'')) statements = None"
        using none by (auto simp: find_None_iff)
      moreover from p8 p pk
      have "map_of (external_dependencies_of R statements) p
            = Some (case find (\<lambda>s. module_path s = p \<and> known_version s \<noteq> None
                                    \<and> known_version s \<noteq> Some (js ''latest'')) statements of
                      None \<Rightarrow> js ''latest''
                    | Some s \<Rightarrow> the (known_version s))"
        by blast
      ultimately show ?thesis by (simp only: option.case)
    qed
    with key show ?thesis by blast
  qed
  from p9 have p9': "(\<forall>p. \<not> R p) \<longrightarrow>
        (\<forall>p\<in>module_path ` set statements.
           \<not> starts_with (js ''./'') p \<and> \<not> starts_with (js ''../'') p
           \<longrightarrow> p \<in> fst ` set (external_dependencies_of R statements)
               \<and> ((\<forall>s\<in>set statements. module_path s = p \<longrightarrow> known_version s = None)
                    \<longrightarrow> map_of (external_dependencies_of R statements) p
                          = Some (js ''latest'')))"
    by blast
  from p1 p2 p3 p4 p5 p6 p7 p8 p9' show ?thesis by (intro conjI)
qed

theorem classification_is_partition_witness:
  "external_dependencies_of (\<lambda>p. False)
      [\<lparr>module_path = js ''framer-motion'', bound_names = [js ''motion''], known_version = None\<rparr>,
       \<lparr>module_path = js ''./card'', bound_names = [js ''Card''], known_version = None\<rparr>]
     = [(js ''framer-motion'', js ''latest'')]
   \<and> internal_dependencies_of (\<lambda>p. False)
      [\<lparr>module_path = js ''framer-motion'', bound_names = [js ''motion''], known_version = None\<rparr>,
       \<lparr>module_path = js ''./card'', bound_names = [js ''Card''], known_version = None\<rparr>]
      []
     = [(js ''./card'', [])]
   \<and> map_of (internal_dependencies_of (\<lambda>p. False)
      [\<lparr>module_path = js ''framer-motion'', bound_names = [js ''motion''], known_version = None\<rparr>,
       \<lparr>module_path = js ''./card'', bound_names = [js ''Card''], known_version = None\<rparr>]
      []) (js ''./card'') = Some []
   \<and> js ''framer-motion'' \<in> fst ` set (external_dependencies_of (\<lambda>p. False)
      [\<lparr>module_path = js ''framer-motion'', bound_names = [js ''motion''], known_version = None\<rparr>,
       \<lparr>module_path = js ''./card'', bound_names = [js ''Card''], known_version = None\<rparr>])
   \<and> js ''framer-motion'' \<notin> fst ` set (internal_dependencies_of (\<lambda>p. False)
      [\<lparr>module_path = js ''framer-motion'', bound_names = [js ''motion''], known_version = None\<rparr>,
       \<lparr>module_path = js ''./card'', bound_names = [js ''Card''], known_version = None\<rparr>]
      [])"
proof -
  define statements where "statements =
      [\<lparr>module_path = js ''framer-motion'', bound_names = [js ''motion''], known_version = None\<rparr>,
       \<lparr>module_path = js ''./card'', bound_names = [js ''Card''], known_version = None\<rparr>]"
  define R where "R = (\<lambda>p::jsstring. False)"
  note part = classification_is_partition[of statements R "[]"]
  have card_in: "js ''./card'' \<in> module_path ` set statements \<union> module_path ` set ([] :: import_statement list)"
    and motion_in: "js ''framer-motion'' \<in> module_path ` set statements"
    by (simp_all add: statements_def)
  have card_rel: "starts_with (js ''./'') (js ''./card'') \<or> starts_with (js ''../'') (js ''./card'')"
    by (simp add: starts_with_def js_def)
  have motion: "\<not> starts_with (js ''./'') (js ''framer-motion'')
                \<and> \<not> starts_with (js ''../'') (js ''framer-motion'')"
    by (simp add: starts_with_def js_def)
  have ext: "external_dependencies_of R statements = [(js ''framer-motion'', js ''latest'')]"
    by (simp add: external_dependencies_of_def statements_def R_def import_fact_def
        path_kind_def starts_with_def record_package_def best_known_version_def
        latest_sentinel_def js_def)
  have int: "internal_dependencies_of R statements [] = [(js ''./card'', [])]"
    by (simp add: internal_dependencies_of_def statements_def R_def import_fact_def
        path_kind_def starts_with_def record_local_def js_def)
  from part have "\<forall>p\<in>module_path ` set statements \<union> module_path ` set ([] :: import_statement list).
        starts_with (js ''./'') p \<or> starts_with (js ''../'') p
        \<longrightarrow> map_of (internal_dependencies_of R statements []) p = Some []"
    by (elim conjE)
  with card_in card_rel
  have v: "map_of (internal_dependencies_of R statements []) (js ''./card'') = Some []"
    by blast
  from part have "\<forall>p\<in>module_path ` set statements.
        (p \<in> fst ` set (external_dependencies_of R statements))
          \<noteq> (p \<in> fst ` set (internal_dependencies_of R statements []))"
    by (elim conjE)
  with motion_in
  have one: "(js ''framer-motion'' \<in> fst ` set (external_dependencies_of R statements))
          \<noteq> (js ''framer-motion'' \<in> fst ` set (internal_dependencies_of R statements []))"
    by blast
  have no_table: "\<forall>p. \<not> R p" by (simp add: R_def)
  from part have "(\<forall>p. \<not> R p) \<longrightarrow>
        (\<forall>p\<in>module_path ` set statements.
           \<not> starts_with (js ''./'') p \<and> \<not> starts_with (js ''../'') p
           \<longrightarrow> p \<in> fst ` set (external_dependencies_of R statements)
               \<and> ((\<forall>s\<in>set statements. module_path s = p \<longrightarrow> known_version s = None)
                    \<longrightarrow> map_of (external_dependencies_of R statements) p
                          = Some (js ''latest'')))"
    by (elim conjE)
  with no_table motion_in motion
  have k: "js ''framer-motion'' \<in> fst ` set (external_dependencies_of R statements)"
    by blast
  with one have nk: "js ''framer-motion'' \<notin> fst ` set (internal_dependencies_of R statements [])"
    by simp
  from ext int v k nk show ?thesis
    unfolding statements_def R_def by (intro conjI)
qed

end
